theory Spec2Isabelle
  imports Complex_Main "HOL-Library.Word" "HOL-Library.AList"
begin

section \<open>Values of the Python program\<close>

text \<open>
  The program is \<^verbatim>\<open>wayland-clip-sync.py\<close>. Byte strings are lists of 8-bit words. A Python
  \<^verbatim>\<open>str\<close> is a \<^typ>\<open>string\<close>, one character per code point (code points below 256).
\<close>

type_synonym byte = "8 word"
type_synonym bytes = "byte list"

text \<open>
  A Python float is a finite value (every double is a rational), an infinity or NaN.
  \<^verbatim>\<open>json.loads\<close> produces all of them (\<^verbatim>\<open>1e400\<close> is \<^verbatim>\<open>inf\<close>, \<^verbatim>\<open>NaN\<close> is accepted).
\<close>

datatype pyfloat = Finite rat | PosInf | NegInf | NaN

text \<open>
  What \<^verbatim>\<open>json.loads\<close> returns. The items of an object are listed once per key; a key is
  looked up with \<^const>\<open>map_of\<close>.
\<close>

datatype jval =
    JNull
  | JBool bool
  | JInt int
  | JFloat pyfloat
  | JStr string
  | JArr "jval list"
  | JObj "(string \<times> jval) list"

text \<open>Exceptions that the loops do not catch; they end the thread that raises them.\<close>

datatype exn =
  AttributeError | TypeError | ValueError | OverflowError | MemoryError | KeyError

text \<open>
  Library functions the program calls and does not define:
  \<^item> \<open>json_loads\<close> is \<^verbatim>\<open>json.loads(line.decode("utf-8"))\<close>, \<open>None\<close> when either call raises;
  \<^item> \<open>int_of_str\<close> is \<^verbatim>\<open>int(s)\<close> on a \<^verbatim>\<open>str\<close>, \<open>None\<close> when it raises \<^verbatim>\<open>ValueError\<close>;
  \<^item> \<open>sha256_hexdigest\<close> is \<^verbatim>\<open>hashlib.sha256(b).hexdigest()\<close>;
  \<^item> \<open>read_raises\<close> is what \<^verbatim>\<open>f.read(n)\<close> raises for a positive \<open>n\<close> before it reads, when the
    runtime cannot make a buffer of \<open>n\<close> bytes: \<^verbatim>\<open>OverflowError\<close> when \<open>n\<close> does not fit the
    index type (from \<open>2\<^sup>6\<^sup>3\<close> on a 64-bit build), \<^verbatim>\<open>MemoryError\<close> when the allocation fails,
    \<open>None\<close> when the buffer can be made.
\<close>

record pylib =
  json_loads :: "bytes \<Rightarrow> jval option"
  int_of_str :: "string \<Rightarrow> int option"
  sha256_hexdigest :: "bytes \<Rightarrow> string"
  read_raises :: "int \<Rightarrow> exn option"

text \<open>\<^verbatim>\<open>hdr.get(k, d)\<close> on a dict.\<close>

definition dict_get :: "(string \<times> jval) list \<Rightarrow> string \<Rightarrow> jval \<Rightarrow> jval" where
  "dict_get kvs k d = (case map_of kvs k of None \<Rightarrow> d | Some v \<Rightarrow> v)"

text \<open>
  \<^verbatim>\<open>int(v)\<close>: a float is truncated towards zero; \<^verbatim>\<open>None\<close>, a list and a dict raise
  \<^verbatim>\<open>TypeError\<close>.
\<close>

definition trunc_rat :: "rat \<Rightarrow> int" where
  "trunc_rat q = (if q < 0 then - \<lfloor>- q\<rfloor> else \<lfloor>q\<rfloor>)"

fun py_int :: "pylib \<Rightarrow> jval \<Rightarrow> exn + int" where
  "py_int L JNull = Inl TypeError"
| "py_int L (JBool b) = Inr (if b then 1 else 0)"
| "py_int L (JInt n) = Inr n"
| "py_int L (JFloat (Finite q)) = Inr (trunc_rat q)"
| "py_int L (JFloat PosInf) = Inl OverflowError"
| "py_int L (JFloat NegInf) = Inl OverflowError"
| "py_int L (JFloat NaN) = Inl ValueError"
| "py_int L (JStr s) = (case int_of_str L s of None \<Rightarrow> Inl ValueError | Some n \<Rightarrow> Inr n)"
| "py_int L (JArr xs) = Inl TypeError"
| "py_int L (JObj kvs) = Inl TypeError"

text \<open>
  Keys of a Python dict. Numbers that compare equal are one key (\<^verbatim>\<open>1\<close>, \<^verbatim>\<open>1.0\<close> and
  \<^verbatim>\<open>True\<close>); a list or a dict is unhashable and cannot be a key.
\<close>

datatype key = KNone | KNum rat | KInf bool | KNaN | KStr string

fun key_of :: "jval \<Rightarrow> key option" where
  "key_of JNull = Some KNone"
| "key_of (JBool b) = Some (KNum (if b then 1 else 0))"
| "key_of (JInt n) = Some (KNum (of_int n))"
| "key_of (JFloat (Finite q)) = Some (KNum q)"
| "key_of (JFloat PosInf) = Some (KInf True)"
| "key_of (JFloat NegInf) = Some (KInf False)"
| "key_of (JFloat NaN) = Some KNaN"
| "key_of (JStr s) = Some (KStr s)"
| "key_of (JArr xs) = None"
| "key_of (JObj kvs) = None"

type_synonym ledger = "(key \<times> jval) list"

section \<open>Wayland helpers\<close>

definition startswith :: "string \<Rightarrow> string \<Rightarrow> bool" where
  "startswith s pre = (take (length pre) s = pre)"

definition prefs :: "string list" where
  "prefs = [''image/png'', ''image/jpeg'', ''image/webp'',
            ''text/plain;charset=utf-8'', ''text/plain'']"

definition pref_match :: "string \<Rightarrow> string \<Rightarrow> bool" where
  "pref_match pref m =
     (m = pref \<or> (startswith pref ''text/plain'' \<and> startswith m ''text/plain''))"

text \<open>The two nested \<^verbatim>\<open>for\<close> loops of \<^verbatim>\<open>choose_mime\<close>: preferences outside, offers inside.\<close>

fun scan_prefs :: "string list \<Rightarrow> string list \<Rightarrow> string option" where
  "scan_prefs [] mimes = None"
| "scan_prefs (pref # ps) mimes =
     (case find (pref_match pref) mimes of
        Some m \<Rightarrow> Some m
      | None \<Rightarrow> scan_prefs ps mimes)"

definition choose_mime :: "string list \<Rightarrow> string option" where
  "choose_mime mimes =
     (case scan_prefs prefs mimes of
        Some m \<Rightarrow> Some m
      | None \<Rightarrow> (case mimes of [] \<Rightarrow> None | m # _ \<Rightarrow> Some m))"

text \<open>
  \<^verbatim>\<open>set_clip\<close> spawns \<^verbatim>\<open>wl-copy\<close> and writes the data to its standard input. The model
  records the spawn: the argument vector and the bytes written. Whatever \<^verbatim>\<open>Popen\<close> raises
  is caught inside \<^verbatim>\<open>set_clip\<close>, so the call always returns.
\<close>

record clip_write =
  cw_cmd :: "jval list"
  cw_data :: bytes

definition set_clip :: "jval \<Rightarrow> jval \<Rightarrow> bytes \<Rightarrow> clip_write" where
  "set_clip selection mime data =
     \<lparr>cw_cmd = (let cmd = [JStr ''wl-copy'', JStr ''--type'', mime]
                in if selection = JStr ''primary''
                   then take 1 cmd @ [JStr ''--primary''] @ drop 1 cmd
                   else cmd),
      cw_data = data\<rparr>"

text \<open>\<^verbatim>\<open>mime.encode()\<close>: UTF-8, one byte below 128 and two bytes from 128 to 255.\<close>

definition encode_char :: "char \<Rightarrow> bytes" where
  "encode_char c =
     (let n = (of_char c :: nat)
      in if n < 128 then [of_nat n] else [of_nat (192 + n div 64), of_nat (128 + n mod 64)])"

definition encode :: "string \<Rightarrow> bytes" where
  "encode s = concat (map encode_char s)"

definition sha :: "pylib \<Rightarrow> bytes \<Rightarrow> string \<Rightarrow> string" where
  "sha L data mime = sha256_hexdigest L (encode mime @ [0] @ data)"

section \<open>Session state\<close>

datatype logmsg =
    RxPeerClosed
  | RxBadHeader
  | RxUnknownMsg
  | RxPut
  | RxLengthMismatch
  | TxUnchanged string
  | TxFromRemote string
  | TxSend string
  | TxSendFailed

text \<open>
  The objects the two loops of one session share. \<open>inbound\<close> holds the bytes the peer has
  sent and \<^verbatim>\<open>rx_loop\<close> has not read yet; the peer closes the stream after them.
  \<open>applied\<close> lists the calls of \<^verbatim>\<open>set_clip\<close>, \<open>sent\<close> the frames for which \<^verbatim>\<open>Peer.send\<close>
  returned \<^verbatim>\<open>True\<close>, oldest first.
\<close>

record session =
  inbound :: bytes
  last_local :: ledger
  last_remote :: ledger
  stop_evt :: bool
  applied :: "clip_write list"
  sent :: "(jval \<times> bytes) list"
  logged :: "logmsg list"

definition log_msg :: "logmsg \<Rightarrow> session \<Rightarrow> session" where
  "log_msg m s = s\<lparr>logged := logged s @ [m]\<rparr>"

text \<open>How a loop body ends: the next iteration, \<^verbatim>\<open>break\<close>, or an exception nobody catches.\<close>

datatype flow = Next session | Break session | Uncaught exn session

section \<open>The inbound loop\<close>

text \<open>
  \<^verbatim>\<open>f.readline()\<close> returns the bytes up to and including the first newline, or all that is
  left when the stream ends first. \<^verbatim>\<open>f.read(n)\<close> waits for \<open>n\<close> bytes and returns fewer only
  when the stream ends; \<open>-1\<close> reads to the end and a smaller \<open>n\<close> raises \<^verbatim>\<open>ValueError\<close>.
  It makes the buffer for its result before it reads: a positive \<open>n\<close> for which the runtime
  cannot make one raises, whatever the stream holds. Reading no bytes needs no buffer.
\<close>

definition readline :: "bytes \<Rightarrow> bytes \<times> bytes" where
  "readline bs =
     (case dropWhile (\<lambda>b. b \<noteq> 10) bs of
        [] \<Rightarrow> (bs, [])
      | nl # rest \<Rightarrow> (takeWhile (\<lambda>b. b \<noteq> 10) bs @ [nl], rest))"

definition read :: "pylib \<Rightarrow> int \<Rightarrow> bytes \<Rightarrow> exn + (bytes \<times> bytes)" where
  "read L n bs =
     (if n < - 1 then Inl ValueError
      else if n = - 1 then Inr (bs, [])
      else if n = 0 then Inr ([], bs)
      else case read_raises L n of
             Some e \<Rightarrow> Inl e
           | None \<Rightarrow> Inr (take (nat n) bs, drop (nat n) bs))"

text \<open>The part of the body of \<^verbatim>\<open>rx_loop\<close> that handles a header whose type is \<^verbatim>\<open>put\<close>.\<close>

definition rx_put :: "pylib \<Rightarrow> (string \<times> jval) list \<Rightarrow> session \<Rightarrow> flow" where
  "rx_put L hdr s =
     (let sel = dict_get hdr ''sel'' (JStr ''clipboard'');
          mime = dict_get hdr ''mime'' (JStr ''text/plain'')
      in case py_int L (dict_get hdr ''len'' (JInt 0)) of
           Inl e \<Rightarrow> Uncaught e s
         | Inr len \<Rightarrow>
             (let s1 = log_msg RxPut s
              in case read L len (inbound s1) of
                   Inl e \<Rightarrow> Uncaught e s1
                 | Inr (data, rest) \<Rightarrow>
                     (let s2 = s1\<lparr>inbound := rest\<rparr>
                      in if int (length data) \<noteq> len
                         then Break (log_msg RxLengthMismatch s2)
                         else (let h = dict_get hdr ''hash'' JNull
                               in case key_of sel of
                                    None \<Rightarrow> Uncaught TypeError s2
                                  | Some k \<Rightarrow>
                                      Next (s2\<lparr>last_remote := AList.update k h (last_remote s2),
                                               applied := applied s2 @ [set_clip sel mime data]\<rparr>)))))"

text \<open>One pass through the body of the \<^verbatim>\<open>while\<close> loop of \<^verbatim>\<open>rx_loop\<close>.\<close>

definition rx_body :: "pylib \<Rightarrow> session \<Rightarrow> flow" where
  "rx_body L s =
     (case readline (inbound s) of (line, rest) \<Rightarrow>
        (let s1 = s\<lparr>inbound := rest\<rparr>
         in if line = [] then Break (log_msg RxPeerClosed s1)
            else case json_loads L line of
                   None \<Rightarrow> Next (log_msg RxBadHeader s1)
                 | Some (JObj hdr) \<Rightarrow>
                     if dict_get hdr ''t'' JNull \<noteq> JStr ''put''
                     then Next (log_msg RxUnknownMsg s1)
                     else rx_put L hdr s1
                 | Some _ \<Rightarrow> Uncaught AttributeError s1))"

text \<open>
  How a thread ends: its function returns, or an exception ends it (then the statement
  after the loop is never reached).
\<close>

datatype outcome = Returned session | Died exn session

function rx_loop :: "pylib \<Rightarrow> session \<Rightarrow> outcome" where
  "rx_loop L s =
     (if stop_evt s then Returned (s\<lparr>stop_evt := True\<rparr>)
      else case rx_body L s of
             Next s' \<Rightarrow> rx_loop L s'
           | Break s' \<Rightarrow> Returned (s'\<lparr>stop_evt := True\<rparr>)
           | Uncaught e s' \<Rightarrow> Died e s')"
  by pat_completeness auto
termination
proof (relation "measure (\<lambda>(L, s). length (inbound s))")
  show "wf (measure (\<lambda>(L, s). length (inbound s)))"
    by simp
next
  fix L :: pylib and s s' :: session
  assume nxt: "rx_body L s = Next s'"
  obtain line rest where rl: "readline (inbound s) = (line, rest)"
    by (cases "readline (inbound s)")
  have ne: "line \<noteq> []"
    using nxt rl by (auto simp: rx_body_def Let_def)
  have le: "length (dropWhile (\<lambda>b. b \<noteq> 10) (inbound s)) \<le> length (inbound s)"
    by (rule length_dropWhile_le)
  have lt: "length rest < length (inbound s)"
    using rl ne le unfolding readline_def by (auto split: list.splits)
  have put: "length (inbound t') \<le> length (inbound t)" if "rx_put L hdr t = Next t'"
    for hdr t t'
    using that
    by (auto simp: rx_put_def read_def Let_def log_msg_def
             split: sum.splits prod.splits if_splits option.splits)
  have "length (inbound s') \<le> length rest"
    using nxt rl ne
    by (auto simp: rx_body_def Let_def log_msg_def
             split: option.splits jval.splits if_splits dest!: put)
  then show "((L, s'), (L, s)) \<in> measure (\<lambda>(L, s). length (inbound s))"
    using lt by simp
qed

section \<open>The outbound loop\<close>

text \<open>
  What one pass of \<^verbatim>\<open>tx_loop\<close> finds outside the program: the answers of the clipboard
  tools (\<^verbatim>\<open>list_mimes\<close>, \<^verbatim>\<open>read_clip\<close>, with \<open>None\<close> for a failed read) and whether
  \<^verbatim>\<open>Peer.send\<close> returns \<^verbatim>\<open>True\<close> for a frame.
\<close>

record env =
  list_mimes :: "string \<Rightarrow> string list"
  read_clip :: "string \<Rightarrow> string \<Rightarrow> bytes option"
  peer_send :: "jval \<Rightarrow> bytes \<Rightarrow> bool"

text \<open>\<^verbatim>\<open>d[k]\<close> raises \<^verbatim>\<open>KeyError\<close> when the key is missing.\<close>

definition dict_item :: "ledger \<Rightarrow> key \<Rightarrow> exn + jval" where
  "dict_item d k = (case map_of d k of None \<Rightarrow> Inl KeyError | Some v \<Rightarrow> Inr v)"

definition put_header :: "string \<Rightarrow> string \<Rightarrow> bytes \<Rightarrow> string \<Rightarrow> jval" where
  "put_header sel mime data h =
     JObj [(''t'', JStr ''put''), (''sel'', JStr sel), (''mime'', JStr mime),
           (''len'', JInt (int (length data))), (''hash'', JStr h)]"

text \<open>
  The last part of the body of the \<^verbatim>\<open>for\<close> loop of \<^verbatim>\<open>tx_loop\<close>: the snapshot
  \<open>(sel, mime, data)\<close> has been read, its hash is compared with the ledger.
\<close>

definition tx_candidate :: "pylib \<Rightarrow> env \<Rightarrow> string \<Rightarrow> string \<Rightarrow> bytes \<Rightarrow> session \<Rightarrow> flow" where
  "tx_candidate L E sel mime data s =
     (let h = sha L data mime
      in case dict_item (last_local s) (KStr sel) of
           Inl e \<Rightarrow> Uncaught e s
         | Inr sent_hash \<Rightarrow>
             if JStr h = sent_hash then Next (log_msg (TxUnchanged sel) s)
             else case dict_item (last_remote s) (KStr sel) of
                    Inl e \<Rightarrow> Uncaught e s
                  | Inr received_hash \<Rightarrow>
                      if JStr h = received_hash then Next (log_msg (TxFromRemote sel) s)
                      else (let header = put_header sel mime data h;
                                s1 = log_msg (TxSend sel) s
                            in if \<not> peer_send E header data
                               then Break ((log_msg TxSendFailed s1)\<lparr>stop_evt := True\<rparr>)
                               else Next (s1\<lparr>sent := sent s1 @ [(header, data)],
                                             last_local :=
                                               AList.update (KStr sel) (JStr h) (last_local s1)\<rparr>)))"

text \<open>The body of the \<^verbatim>\<open>for\<close> loop: an empty offer, an empty choice and a failed read skip.\<close>

definition tx_sel :: "pylib \<Rightarrow> env \<Rightarrow> string \<Rightarrow> session \<Rightarrow> flow" where
  "tx_sel L E sel s =
     (let mimes = list_mimes E sel
      in if mimes = [] then Next s
         else case choose_mime mimes of
                None \<Rightarrow> Next s
              | Some mime \<Rightarrow>
                  if mime = [] then Next s
                  else case read_clip E sel mime of
                         None \<Rightarrow> Next s
                       | Some data \<Rightarrow> tx_candidate L E sel mime data s)"

fun tx_for :: "pylib \<Rightarrow> env \<Rightarrow> string list \<Rightarrow> session \<Rightarrow> flow" where
  "tx_for L E [] s = Next s"
| "tx_for L E (sel # sels) s =
     (case tx_sel L E sel s of
        Next s' \<Rightarrow> tx_for L E sels s'
      | Break s' \<Rightarrow> Break s'
      | Uncaught e s' \<Rightarrow> Uncaught e s')"

text \<open>
  \<^verbatim>\<open>tx_loop\<close> polls until the stop event is set. The list gives what each pass finds;
  when it is used up and the event is not set, the loop is still running.
\<close>

datatype tx_outcome = TxReturned session | TxDied exn session | TxRunning session

fun tx_loop :: "pylib \<Rightarrow> string list \<Rightarrow> env list \<Rightarrow> session \<Rightarrow> tx_outcome" where
  "tx_loop L selections [] s = (if stop_evt s then TxReturned s else TxRunning s)"
| "tx_loop L selections (E # Es) s =
     (if stop_evt s then TxReturned s
      else case tx_for L E selections s of
             Next s' \<Rightarrow> tx_loop L selections Es s'
           | Break s' \<Rightarrow> tx_loop L selections Es s'
           | Uncaught e s' \<Rightarrow> TxDied e s')"

section \<open>Sessions and endpoints\<close>

text \<open>
  \<^verbatim>\<open>run_session\<close> builds the two dicts, starts one thread per loop and waits for the stop
  event. The threads interleave; a schedule lists whose turn it is: one pass through the
  body of \<^verbatim>\<open>rx_loop\<close>, or one pass of \<^verbatim>\<open>tx_loop\<close> over the selections.
\<close>

datatype thread = Alive | Finished | Dead exn

record threads =
  sess :: session
  rx_thread :: thread
  tx_thread :: thread

datatype turn = RxTurn | TxTurn env

definition rx_turn :: "pylib \<Rightarrow> threads \<Rightarrow> threads" where
  "rx_turn L st =
     (if rx_thread st \<noteq> Alive then st
      else if stop_evt (sess st) then st\<lparr>rx_thread := Finished\<rparr>
      else case rx_body L (sess st) of
             Next s' \<Rightarrow> st\<lparr>sess := s'\<rparr>
           | Break s' \<Rightarrow> st\<lparr>sess := s'\<lparr>stop_evt := True\<rparr>, rx_thread := Finished\<rparr>
           | Uncaught e s' \<Rightarrow> st\<lparr>sess := s', rx_thread := Dead e\<rparr>)"

definition tx_turn :: "pylib \<Rightarrow> string list \<Rightarrow> env \<Rightarrow> threads \<Rightarrow> threads" where
  "tx_turn L selections E st =
     (if tx_thread st \<noteq> Alive then st
      else if stop_evt (sess st) then st\<lparr>tx_thread := Finished\<rparr>
      else case tx_for L E selections (sess st) of
             Next s' \<Rightarrow> st\<lparr>sess := s'\<rparr>
           | Break s' \<Rightarrow> st\<lparr>sess := s'\<rparr>
           | Uncaught e s' \<Rightarrow> st\<lparr>sess := s', tx_thread := Dead e\<rparr>)"

fun run_turns :: "pylib \<Rightarrow> string list \<Rightarrow> turn list \<Rightarrow> threads \<Rightarrow> threads" where
  "run_turns L selections [] st = st"
| "run_turns L selections (t # ts) st =
     (if stop_evt (sess st) then st
      else run_turns L selections ts
             (case t of RxTurn \<Rightarrow> rx_turn L st | TxTurn E \<Rightarrow> tx_turn L selections E st))"

definition active_selections :: "bool \<Rightarrow> string list" where
  "active_selections primary_ok = [''clipboard''] @ (if primary_ok then [''primary''] else [])"

definition session_start :: "bool \<Rightarrow> bytes \<Rightarrow> threads" where
  "session_start primary_ok sock =
     \<lparr>sess = \<lparr>inbound = sock,
              last_local = map (\<lambda>s. (KStr s, JNull)) (active_selections primary_ok),
              last_remote = map (\<lambda>s. (KStr s, JNull)) (active_selections primary_ok),
              stop_evt = False, applied = [], sent = [], logged = []\<rparr>,
      rx_thread = Alive, tx_thread = Alive\<rparr>"

definition run_session :: "pylib \<Rightarrow> bool \<Rightarrow> bytes \<times> turn list \<Rightarrow> threads" where
  "run_session L primary_ok conn =
     run_turns L (active_selections primary_ok) (snd conn) (session_start primary_ok (fst conn))"

text \<open>
  \<^verbatim>\<open>serve\<close> accepts one connection after the other and runs a session on each. A
  connection is the bytes the peer sends on it and the schedule of its session.
\<close>

fun serve :: "pylib \<Rightarrow> bool \<Rightarrow> (bytes \<times> turn list) list \<Rightarrow> threads list" where
  "serve L primary_ok [] = []"
| "serve L primary_ok (conn # conns) =
     run_session L primary_ok conn # serve L primary_ok conns"

section \<open>Preference orders\<close>

text \<open>
  The order as the specification words it: PNG, JPEG, WebP, then plain text, then anything
  else, where plain text is \<^verbatim>\<open>text/plain\<close> and its UTF-8 charset variants (the names that
  begin with \<^verbatim>\<open>text/plain;charset=utf-8\<close>).
\<close>

definition claimed_rank :: "string \<Rightarrow> nat" where
  "claimed_rank m =
     (if m = ''image/png'' then 0
      else if m = ''image/jpeg'' then 1
      else if m = ''image/webp'' then 2
      else if m = ''text/plain'' \<or> startswith m ''text/plain;charset=utf-8'' then 3
      else 4)"

text \<open>
  The order with the wider text class: every name that begins with \<^verbatim>\<open>text/plain\<close> counts as
  plain text, whatever follows the prefix.
\<close>

definition prefix_rank :: "string \<Rightarrow> nat" where
  "prefix_rank m =
     (if m = ''image/png'' then 0
      else if m = ''image/jpeg'' then 1
      else if m = ''image/webp'' then 2
      else if startswith m ''text/plain'' then 3
      else 4)"

section \<open>Observations and examples\<close>

text \<open>The session a loop body leaves behind, however it ends.\<close>

fun flow_session :: "flow \<Rightarrow> session" where
  "flow_session (Next s) = s"
| "flow_session (Break s) = s"
| "flow_session (Uncaught e s) = s"

text \<open>
  A poll of \<open>sel\<close> finds a candidate snapshot: the offer is not empty, \<^verbatim>\<open>choose_mime\<close> picks
  \<open>mime\<close>, and \<^verbatim>\<open>read_clip\<close> returns \<open>data\<close>.
\<close>

definition polled :: "env \<Rightarrow> string \<Rightarrow> string \<Rightarrow> bytes \<Rightarrow> bool" where
  "polled E sel mime data \<longleftrightarrow>
     choose_mime (list_mimes E sel) = Some mime \<and> mime \<noteq> [] \<and> read_clip E sel mime = Some data"

text \<open>
  A header with the defaults of \<^verbatim>\<open>rx_loop\<close> written out for the fields it lacks.
\<close>

definition with_defaults :: "(string \<times> jval) list \<Rightarrow> (string \<times> jval) list" where
  "with_defaults hdr =
     hdr @ [(''sel'', JStr ''clipboard''), (''mime'', JStr ''text/plain''),
            (''len'', JInt 0), (''hash'', JNull)]"

text \<open>
  Example inputs. The lines are the UTF-8 bytes of the texts shown; \<open>ex_loads\<close> gives what
  \<^verbatim>\<open>json.loads\<close> returns on each of them (it raises on \<^verbatim>\<open>not json\<close>), \<open>ex_digest\<close> is SHA-256
  on the one input used, and \<open>ex_int\<close> is \<^verbatim>\<open>int\<close> on the string \<^verbatim>\<open>"2"\<close>. No example uses
  these functions on any other argument. \<open>ex_read_raises\<close> is a 64-bit runtime that can
  make buffers of up to one mebibyte; the examples use it at the lengths \<open>2\<close>, \<open>100\<close> and
  \<open>2\<^sup>6\<^sup>3\<close>.
\<close>

definition ex_put_bare :: bytes where
  \<open>ex_put_bare = encode ''{"t": "put"}'' @ [10]\<close>

definition ex_empty_obj :: bytes where
  \<open>ex_empty_obj = encode ''{}'' @ [10]\<close>

definition ex_not_json :: bytes where
  \<open>ex_not_json = encode ''not json'' @ [10]\<close>

definition ex_ping :: bytes where
  \<open>ex_ping = encode ''{"t": "ping"}'' @ [10]\<close>

definition ex_put_primary :: bytes where
  \<open>ex_put_primary =
     encode ''{"t": "put", "sel": "primary", "mime": "text/plain", "len": 2, "hash": "abc"}''
     @ [10]\<close>

definition ex_put_100 :: bytes where
  \<open>ex_put_100 =
     encode ''{"t": "put", "sel": "clipboard", "mime": "text/plain", "len": 100, "hash": "abc"}''
     @ [10]\<close>

definition ex_put_huge :: bytes where
  \<open>ex_put_huge = encode ''{"t": "put", "len": 9223372036854775808}'' @ [10]\<close>

definition ex_put_list_sel :: bytes where
  \<open>ex_put_list_sel =
     encode ''{"t": "put", "sel": ["a"], "mime": "text/plain", "len": 2, "hash": "abc"}''
     @ [10]\<close>

definition ex_loads :: "bytes \<Rightarrow> jval option" where
  "ex_loads line =
     (if line = ex_put_bare then Some (JObj [(''t'', JStr ''put'')])
      else if line = ex_empty_obj then Some (JObj [])
      else if line = ex_ping then Some (JObj [(''t'', JStr ''ping'')])
      else if line = ex_put_primary then
        Some (JObj [(''t'', JStr ''put''), (''sel'', JStr ''primary''),
                    (''mime'', JStr ''text/plain''), (''len'', JInt 2), (''hash'', JStr ''abc'')])
      else if line = ex_put_100 then
        Some (JObj [(''t'', JStr ''put''), (''sel'', JStr ''clipboard''),
                    (''mime'', JStr ''text/plain''), (''len'', JInt 100), (''hash'', JStr ''abc'')])
      else if line = ex_put_huge then
        Some (JObj [(''t'', JStr ''put''), (''len'', JInt 9223372036854775808)])
      else if line = ex_put_list_sel then
        Some (JObj [(''t'', JStr ''put''), (''sel'', JArr [JStr ''a'']),
                    (''mime'', JStr ''text/plain''), (''len'', JInt 2), (''hash'', JStr ''abc'')])
      else None)"

definition ex_int :: "string \<Rightarrow> int option" where
  "ex_int s = (if s = ''2'' then Some 2 else None)"

definition ex_digest :: "bytes \<Rightarrow> string" where
  "ex_digest b =
     (if b = encode ''text/plain'' @ [0] @ encode ''hello''
      then ''97ef98f924d843749ab0e7f56c8362af9c86e7d214492543f8dbfb6cdf679037''
      else [])"

definition ex_read_raises :: "int \<Rightarrow> exn option" where
  "ex_read_raises n =
     (if 9223372036854775808 \<le> n then Some OverflowError
      else if 1048576 < n then Some MemoryError
      else None)"

definition ex_lib :: pylib where
  "ex_lib = \<lparr>json_loads = ex_loads, int_of_str = ex_int, sha256_hexdigest = ex_digest,
            read_raises = ex_read_raises\<rparr>"

text \<open>The clipboard offers \<^verbatim>\<open>hello\<close> as plain text on every selection; sending works or fails.\<close>

definition ex_env :: "bool \<Rightarrow> env" where
  "ex_env link_up =
     \<lparr>list_mimes = (\<lambda>sel. [''text/plain'']),
      read_clip = (\<lambda>sel mime. if mime = ''text/plain'' then Some (encode ''hello'') else None),
      peer_send = (\<lambda>header payload. link_up)\<rparr>"

definition ex_session :: "bytes \<Rightarrow> session" where
  "ex_session sock = sess (session_start False sock)"

text \<open>Both ledgers have an entry for every selection of the list.\<close>

definition has_keys :: "string list \<Rightarrow> session \<Rightarrow> bool" where
  "has_keys sels s \<longleftrightarrow>
     (\<forall>sel\<in>set sels. map_of (last_local s) (KStr sel) \<noteq> None \<and>
                      map_of (last_remote s) (KStr sel) \<noteq> None)"

section \<open>Choosing a content type\<close>

lemma pref_match_simps:
  "pref_match ''image/png'' = (\<lambda>m. m = ''image/png'')"
  "pref_match ''image/jpeg'' = (\<lambda>m. m = ''image/jpeg'')"
  "pref_match ''image/webp'' = (\<lambda>m. m = ''image/webp'')"
  "pref_match ''text/plain;charset=utf-8'' = (\<lambda>m. startswith m ''text/plain'')"
  "pref_match ''text/plain'' = (\<lambda>m. startswith m ''text/plain'')"
  by (auto simp: pref_match_def startswith_def fun_eq_iff)

lemma prefix_rank_iff:
  "prefix_rank m = 0 \<longleftrightarrow> m = ''image/png''"
  "prefix_rank m = Suc 0 \<longleftrightarrow> m = ''image/jpeg''"
  "prefix_rank m = 2 \<longleftrightarrow> m = ''image/webp''"
  "prefix_rank m = 3 \<longleftrightarrow>
     m \<noteq> ''image/png'' \<and> m \<noteq> ''image/jpeg'' \<and> m \<noteq> ''image/webp'' \<and> startswith m ''text/plain''"
  "prefix_rank m = 4 \<longleftrightarrow>
     m \<noteq> ''image/png'' \<and> m \<noteq> ''image/jpeg'' \<and> m \<noteq> ''image/webp'' \<and> \<not> startswith m ''text/plain''"
  by (simp_all add: prefix_rank_def)

lemma find_rank:
  assumes "\<exists>m \<in> set mimes. prefix_rank m = r" "\<forall>m \<in> set mimes. r \<le> prefix_rank m"
  shows "find (\<lambda>m. \<forall>m'\<in>set mimes. prefix_rank m \<le> prefix_rank m') mimes = find (\<lambda>m. prefix_rank m = r) mimes"
proof (rule find_cong)
  show "mimes = mimes" by simp
next
  fix x assume "x \<in> set mimes"
  then show "(\<forall>m'\<in>set mimes. prefix_rank x \<le> prefix_rank m') = (prefix_rank x = r)"
    using assms by (metis le_antisym)
qed

lemma scan_prefs_unfold:
  "scan_prefs prefs mimes =
     (case find (\<lambda>m. m = ''image/png'') mimes of Some m \<Rightarrow> Some m | None \<Rightarrow>
      (case find (\<lambda>m. m = ''image/jpeg'') mimes of Some m \<Rightarrow> Some m | None \<Rightarrow>
      (case find (\<lambda>m. m = ''image/webp'') mimes of Some m \<Rightarrow> Some m | None \<Rightarrow>
      find (\<lambda>m. startswith m ''text/plain'') mimes)))"
  by (cases "find (\<lambda>m. startswith m ''text/plain'') mimes")
     (simp_all add: prefs_def pref_match_simps cong: option.case_cong)


lemma prefix_rank_ge:
  "m \<noteq> ''image/png'' \<Longrightarrow> 1 \<le> prefix_rank m"
  "m \<noteq> ''image/png'' \<Longrightarrow> m \<noteq> ''image/jpeg'' \<Longrightarrow> 2 \<le> prefix_rank m"
  "m \<noteq> ''image/png'' \<Longrightarrow> m \<noteq> ''image/jpeg'' \<Longrightarrow> m \<noteq> ''image/webp'' \<Longrightarrow> 3 \<le> prefix_rank m"
  by (simp_all add: prefix_rank_def)


lemma find_ex_Some: "\<exists>x\<in>set xs. P x \<Longrightarrow> \<exists>y. find P xs = Some y"
  by (cases "find P xs") (auto simp: find_None_iff)

lemma find_absent: "x \<notin> set xs \<Longrightarrow> find (\<lambda>m. m = x) xs = None"
  by (simp add: find_None_iff)

lemma choose_mime_first_best:
  "choose_mime mimes = find (\<lambda>m. \<forall>m'\<in>set mimes. prefix_rank m \<le> prefix_rank m') mimes"
proof -
  let ?best = "\<lambda>m. \<forall>m'\<in>set mimes. prefix_rank m \<le> prefix_rank m'"
  let ?tp = "\<lambda>m. startswith m ''text/plain''"
  consider (r0) "''image/png'' \<in> set mimes"
    | (r1) "''image/png'' \<notin> set mimes" "''image/jpeg'' \<in> set mimes"
    | (r2) "''image/png'' \<notin> set mimes" "''image/jpeg'' \<notin> set mimes" "''image/webp'' \<in> set mimes"
    | (r3) "''image/png'' \<notin> set mimes" "''image/jpeg'' \<notin> set mimes" "''image/webp'' \<notin> set mimes"
           "\<exists>m\<in>set mimes. ?tp m"
    | (r4) "''image/png'' \<notin> set mimes" "''image/jpeg'' \<notin> set mimes" "''image/webp'' \<notin> set mimes"
           "\<forall>m\<in>set mimes. \<not> ?tp m"
    by blast
  then show ?thesis
  proof cases
    case r0
    have ex: "\<exists>m\<in>set mimes. prefix_rank m = 0"
      using r0 prefix_rank_iff(1) by blast
    have "find ?best mimes = find (\<lambda>m. prefix_rank m = 0) mimes"
      by (rule find_rank [OF ex]) simp
    then have b: "find ?best mimes = find (\<lambda>m. m = ''image/png'') mimes"
      by (simp only: prefix_rank_iff)
    obtain y where y: "find (\<lambda>m. m = ''image/png'') mimes = Some y"
      using find_ex_Some [of mimes "\<lambda>m. m = ''image/png''"] r0 by blast
    show ?thesis
      unfolding choose_mime_def scan_prefs_unfold b y by simp
  next
    case r1
    have ex: "\<exists>m\<in>set mimes. prefix_rank m = Suc 0"
      using r1 prefix_rank_iff(2) by blast
    have lb: "\<forall>m\<in>set mimes. Suc 0 \<le> prefix_rank m"
      using r1(1) prefix_rank_ge(1) by (metis One_nat_def)
    have "find ?best mimes = find (\<lambda>m. prefix_rank m = Suc 0) mimes"
      by (rule find_rank [OF ex lb])
    then have b: "find ?best mimes = find (\<lambda>m. m = ''image/jpeg'') mimes"
      by (simp only: prefix_rank_iff)
    obtain y where y: "find (\<lambda>m. m = ''image/jpeg'') mimes = Some y"
      using find_ex_Some [of mimes "\<lambda>m. m = ''image/jpeg''"] r1 by blast
    show ?thesis
      unfolding choose_mime_def scan_prefs_unfold b y find_absent [OF r1(1)] by simp
  next
    case r2
    have ex: "\<exists>m\<in>set mimes. prefix_rank m = 2"
      using r2 prefix_rank_iff(3) by blast
    have lb: "\<forall>m\<in>set mimes. 2 \<le> prefix_rank m"
      using r2(1,2) prefix_rank_ge(2) by metis
    have "find ?best mimes = find (\<lambda>m. prefix_rank m = 2) mimes"
      by (rule find_rank [OF ex lb])
    then have b: "find ?best mimes = find (\<lambda>m. m = ''image/webp'') mimes"
      by (simp only: prefix_rank_iff)
    obtain y where y: "find (\<lambda>m. m = ''image/webp'') mimes = Some y"
      using find_ex_Some [of mimes "\<lambda>m. m = ''image/webp''"] r2 by blast
    show ?thesis
      unfolding choose_mime_def scan_prefs_unfold b y
        find_absent [OF r2(1)] find_absent [OF r2(2)] by simp
  next
    case r3
    have ex: "\<exists>m\<in>set mimes. prefix_rank m = 3"
      using r3 prefix_rank_iff(4) by metis
    have lb: "\<forall>m\<in>set mimes. 3 \<le> prefix_rank m"
      using r3(1,2,3) prefix_rank_ge(3) by metis
    have "find ?best mimes = find (\<lambda>m. prefix_rank m = 3) mimes"
      by (rule find_rank [OF ex lb])
    also have "\<dots> = find ?tp mimes"
    proof (rule find_cong)
      fix x assume "x \<in> set mimes"
      then show "(prefix_rank x = 3) = ?tp x"
        using r3(1,2,3) prefix_rank_iff(4) by metis
    qed simp
    finally have b: "find ?best mimes = find ?tp mimes" .
    obtain y where y: "find ?tp mimes = Some y"
      using find_ex_Some [of mimes ?tp] r3(4) by blast
    show ?thesis
      unfolding choose_mime_def scan_prefs_unfold b y
        find_absent [OF r3(1)] find_absent [OF r3(2)] find_absent [OF r3(3)] by simp
  next
    case r4
    have all4: "\<forall>m\<in>set mimes. prefix_rank m = 4"
      using r4 prefix_rank_iff(5) by metis
    have b: "find ?best mimes = (case mimes of [] \<Rightarrow> None | m # _ \<Rightarrow> Some m)"
      using all4 by (cases mimes) simp_all
    have n: "find ?tp mimes = None"
      using r4(4) by (simp add: find_None_iff)
    show ?thesis
      unfolding choose_mime_def scan_prefs_unfold b n
        find_absent [OF r4(1)] find_absent [OF r4(2)] find_absent [OF r4(3)] by simp
  qed
qed

text \<open>
  Claim C7, as stated, fails: in the claimed order \<^verbatim>\<open>text/plain\<close> and its UTF-8 charset
  variants come before every other type, but the program takes the first offered type
  that begins with \<^verbatim>\<open>text/plain\<close>. It chooses the UTF-16 variant offered before the UTF-8
  variant, and \<^verbatim>\<open>text/plainfoo\<close> offered before \<^verbatim>\<open>text/plain\<close>.
\<close>

theorem choose_mime_counterexample:
  "choose_mime [''text/plain;charset=utf-16'', ''text/plain;charset=utf-8''] =
     Some ''text/plain;charset=utf-16''
   \<and> claimed_rank ''text/plain;charset=utf-8'' < claimed_rank ''text/plain;charset=utf-16''
   \<and> choose_mime [''text/plainfoo'', ''text/plain''] = Some ''text/plainfoo''
   \<and> claimed_rank ''text/plain'' < claimed_rank ''text/plainfoo''"
  by (simp add: choose_mime_def scan_prefs_unfold claimed_rank_def startswith_def)

text \<open>
  Claim C7, amended. For every list of offered types, \<^verbatim>\<open>choose_mime\<close> returns the first
  offered type of the best rank in the order PNG, JPEG, WebP, then any type whose name
  begins with \<^verbatim>\<open>text/plain\<close> (plain text, all its charset variants and every other name with
  that prefix alike), then any other type; nothing is chosen from an empty offer. For the
  offer \<^verbatim>\<open>["text/plain", "image/png"]\<close> the choice is \<^verbatim>\<open>image/png\<close>, and for
  \<^verbatim>\<open>["text/plain;charset=utf-8"]\<close> it is that text variant.
\<close>

theorem choose_mime_preference:
  "choose_mime mimes = find (\<lambda>m. \<forall>m'\<in>set mimes. prefix_rank m \<le> prefix_rank m') mimes
   \<and> choose_mime [''text/plain'', ''image/png''] = Some ''image/png''
   \<and> choose_mime [''text/plain;charset=utf-8''] = Some ''text/plain;charset=utf-8''"
proof (intro conjI)
  show "choose_mime mimes = find (\<lambda>m. \<forall>m'\<in>set mimes. prefix_rank m \<le> prefix_rank m') mimes"
    by (rule choose_mime_first_best)
  show "choose_mime [''text/plain'', ''image/png''] = Some ''image/png''"
    by (simp add: choose_mime_def scan_prefs_unfold)
  show "choose_mime [''text/plain;charset=utf-8''] = Some ''text/plain;charset=utf-8''"
    by (simp add: choose_mime_def scan_prefs_unfold startswith_def)
qed

theorem choose_mime_preference_witness:
  "prefix_rank ''image/jpeg'' \<le> prefix_rank ''text/html''
   \<and> prefix_rank ''image/jpeg'' \<le> prefix_rank ''text/plain''
   \<and> choose_mime [''text/html'', ''text/plain'', ''image/jpeg''] = Some ''image/jpeg''"
  using choose_mime_preference [of "[''text/html'', ''text/plain'', ''image/jpeg'']"]
  by (simp add: prefix_rank_def startswith_def)

section \<open>The outbound path\<close>

lemma choose_mime_Nil: "choose_mime [] = None"
  by (simp add: choose_mime_def prefs_def)

lemma tx_sel_polled:
  assumes "polled E sel mime data"
  shows "tx_sel L E sel s = tx_candidate L E sel mime data s"
proof -
  have "list_mimes E sel \<noteq> []"
    using assms choose_mime_Nil by (auto simp: polled_def)
  then show ?thesis
    using assms by (simp add: polled_def tx_sel_def)
qed

lemma tx_candidate_cases:
  assumes a: "map_of (last_local s) (KStr sel) = Some a"
    and b: "map_of (last_remote s) (KStr sel) = Some b"
  shows "tx_candidate L E sel mime data s =
     (if JStr (sha L data mime) = a then Next (log_msg (TxUnchanged sel) s)
      else if JStr (sha L data mime) = b then Next (log_msg (TxFromRemote sel) s)
      else if peer_send E (put_header sel mime data (sha L data mime)) data
      then Next ((log_msg (TxSend sel) s)
                  \<lparr>sent := sent s @ [(put_header sel mime data (sha L data mime), data)],
                   last_local := AList.update (KStr sel) (JStr (sha L data mime)) (last_local s)\<rparr>)
      else Break ((log_msg TxSendFailed (log_msg (TxSend sel) s))\<lparr>stop_evt := True\<rparr>))"
  using a b by (simp add: tx_candidate_def dict_item_def Let_def log_msg_def)

lemma tx_candidate_same_local:
  assumes "map_of (last_local s) (KStr sel) = Some (JStr (sha L data mime))"
  shows "tx_candidate L E sel mime data s = Next (log_msg (TxUnchanged sel) s)"
  using assms by (simp add: tx_candidate_def dict_item_def Let_def)

text \<open>
  Claim C1. A polled candidate whose hash equals the last sent hash of its selection is
  suppressed; otherwise one whose hash equals the last received hash is suppressed; every
  other candidate is handed to \<^verbatim>\<open>Peer.send\<close>. When a candidate has been sent, polling the
  same type and bytes again sends nothing: the two polls put exactly one frame on the wire.
\<close>

theorem tx_suppression:
  assumes p: "polled E sel mime data"
    and a: "map_of (last_local s) (KStr sel) = Some a"
    and b: "map_of (last_remote s) (KStr sel) = Some b"
  shows "tx_sel L E sel s =
     (if JStr (sha L data mime) = a then Next (log_msg (TxUnchanged sel) s)
      else if JStr (sha L data mime) = b then Next (log_msg (TxFromRemote sel) s)
      else if peer_send E (put_header sel mime data (sha L data mime)) data
      then Next ((log_msg (TxSend sel) s)
                  \<lparr>sent := sent s @ [(put_header sel mime data (sha L data mime), data)],
                   last_local := AList.update (KStr sel) (JStr (sha L data mime)) (last_local s)\<rparr>)
      else Break ((log_msg TxSendFailed (log_msg (TxSend sel) s))\<lparr>stop_evt := True\<rparr>))
   \<and> (JStr (sha L data mime) \<noteq> a \<longrightarrow> JStr (sha L data mime) \<noteq> b \<longrightarrow>
        peer_send E (put_header sel mime data (sha L data mime)) data \<longrightarrow>
        polled E' sel mime data \<longrightarrow>
        (\<exists>s1 s2. tx_sel L E sel s = Next s1 \<and> tx_sel L E' sel s1 = Next s2 \<and>
                 sent s2 = sent s @ [(put_header sel mime data (sha L data mime), data)]))"
proof (intro conjI impI)
  show "tx_sel L E sel s =
     (if JStr (sha L data mime) = a then Next (log_msg (TxUnchanged sel) s)
      else if JStr (sha L data mime) = b then Next (log_msg (TxFromRemote sel) s)
      else if peer_send E (put_header sel mime data (sha L data mime)) data
      then Next ((log_msg (TxSend sel) s)
                  \<lparr>sent := sent s @ [(put_header sel mime data (sha L data mime), data)],
                   last_local := AList.update (KStr sel) (JStr (sha L data mime)) (last_local s)\<rparr>)
      else Break ((log_msg TxSendFailed (log_msg (TxSend sel) s))\<lparr>stop_evt := True\<rparr>))"
    using tx_sel_polled [OF p] tx_candidate_cases [OF a b] by simp
next
  let ?h = "sha L data mime"
  let ?s1 = "(log_msg (TxSend sel) s)
                  \<lparr>sent := sent s @ [(put_header sel mime data ?h, data)],
                   last_local := AList.update (KStr sel) (JStr ?h) (last_local s)\<rparr>"
  assume na: "JStr ?h \<noteq> a" and nb: "JStr ?h \<noteq> b"
    and ok: "peer_send E (put_header sel mime data ?h) data"
    and p': "polled E' sel mime data"
  have first: "tx_sel L E sel s = Next ?s1"
    using tx_sel_polled [OF p] tx_candidate_cases [OF a b] na nb ok by simp
  have "map_of (last_local ?s1) (KStr sel) = Some (JStr ?h)"
    by (simp add: update_conv')
  then have second: "tx_sel L E' sel ?s1 = Next (log_msg (TxUnchanged sel) ?s1)"
    using tx_sel_polled [OF p'] tx_candidate_same_local by simp
  have "sent (log_msg (TxUnchanged sel) ?s1) = sent s @ [(put_header sel mime data ?h, data)]"
    by (simp add: log_msg_def)
  then show "\<exists>s1 s2. tx_sel L E sel s = Next s1 \<and> tx_sel L E' sel s1 = Next s2 \<and>
                 sent s2 = sent s @ [(put_header sel mime data ?h, data)]"
    using first second by blast
qed

lemma ex_polled: "polled (ex_env up) ''clipboard'' ''text/plain'' (encode ''hello'')"
  by (simp add: polled_def ex_env_def choose_mime_def prefs_def pref_match_def startswith_def)

lemma ex_session_ledger:
  "map_of (last_local (ex_session sock)) (KStr ''clipboard'') = Some JNull"
  "map_of (last_remote (ex_session sock)) (KStr ''clipboard'') = Some JNull"
  by (simp_all add: ex_session_def session_start_def active_selections_def)

theorem tx_suppression_witness:
  "polled (ex_env True) ''clipboard'' ''text/plain'' (encode ''hello'')
   \<and> map_of (last_local (ex_session [])) (KStr ''clipboard'') = Some JNull
   \<and> map_of (last_remote (ex_session [])) (KStr ''clipboard'') = Some JNull
   \<and> (\<exists>s1 s2. tx_sel ex_lib (ex_env True) ''clipboard'' (ex_session []) = Next s1
         \<and> tx_sel ex_lib (ex_env True) ''clipboard'' s1 = Next s2
         \<and> sent s2 = sent (ex_session []) @
               [(put_header ''clipboard'' ''text/plain'' (encode ''hello'')
                   (sha ex_lib (encode ''hello'') ''text/plain''), encode ''hello'')])"
proof -
  have ok: "peer_send (ex_env True) header payload" for header payload
    by (simp add: ex_env_def)
  have ne: "JStr h \<noteq> JNull" for h
    by simp
  note t = tx_suppression [where L = ex_lib and E' = "ex_env True",
      OF ex_polled [of True] ex_session_ledger(1) [of "[]"] ex_session_ledger(2) [of "[]"]]
  note two = t [THEN conjunct2, rule_format, OF ne ne ok ex_polled]
  show ?thesis
    using two ex_polled [of True] ex_session_ledger [of "[]"] by (intro conjI)
qed

lemma stop_evt_idem: "stop_evt s \<Longrightarrow> s\<lparr>stop_evt := True\<rparr> = s"
  by simp

lemma rx_loop_stopped: "stop_evt s \<Longrightarrow> rx_loop L s = Returned s"
  by (subst rx_loop.simps) simp

lemma tx_loop_stopped: "stop_evt s \<Longrightarrow> tx_loop L selections Es s = TxReturned s"
  by (cases Es) simp_all

lemma tx_candidate_ledger_change:
  "last_local (flow_session (tx_candidate L E sel mime data s)) \<noteq> last_local s \<Longrightarrow>
     \<exists>header. peer_send E header data \<and>
       sent (flow_session (tx_candidate L E sel mime data s)) = sent s @ [(header, data)]"
  by (auto simp: tx_candidate_def dict_item_def Let_def log_msg_def
           split: option.splits if_splits)

lemma tx_sel_ledger_change:
  assumes "last_local (flow_session (tx_sel L E sel s)) \<noteq> last_local s"
  shows "\<exists>header payload. peer_send E header payload \<and>
           sent (flow_session (tx_sel L E sel s)) = sent s @ [(header, payload)]"
proof -
  from assms obtain mime data where
    eq: "tx_sel L E sel s = tx_candidate L E sel mime data s"
    by (auto simp: tx_sel_def Let_def split: option.splits if_splits)
  then show ?thesis
    using assms tx_candidate_ledger_change [of L E sel mime data s] by auto
qed

text \<open>
  Claim C5. The outbound loop writes \<open>last_sent_hash\<close> of a selection only when \<^verbatim>\<open>Peer.send\<close>
  has returned \<^verbatim>\<open>True\<close> for the frame of that snapshot. When the send fails, the ledger is
  as before, the stop event is set, the remaining selections are not polled, and both
  loops return at their next test of the event.
\<close>

theorem tx_send_failure:
  assumes p: "polled E sel mime data"
    and a: "map_of (last_local s) (KStr sel) = Some a"
    and b: "map_of (last_remote s) (KStr sel) = Some b"
    and na: "JStr (sha L data mime) \<noteq> a"
    and nb: "JStr (sha L data mime) \<noteq> b"
  shows "(last_local (flow_session (tx_sel L E0 sel0 s0)) \<noteq> last_local s0 \<longrightarrow>
            (\<exists>header payload. peer_send E0 header payload \<and>
               sent (flow_session (tx_sel L E0 sel0 s0)) = sent s0 @ [(header, payload)]))
   \<and> (peer_send E (put_header sel mime data (sha L data mime)) data \<longrightarrow>
        (\<exists>s'. tx_sel L E sel s = Next s' \<and>
              map_of (last_local s') (KStr sel) = Some (JStr (sha L data mime)) \<and>
              sent s' = sent s @ [(put_header sel mime data (sha L data mime), data)] \<and>
              stop_evt s' = stop_evt s))
   \<and> (\<not> peer_send E (put_header sel mime data (sha L data mime)) data \<longrightarrow>
        (\<exists>s'. tx_sel L E sel s = Break s' \<and>
              last_local s' = last_local s \<and> sent s' = sent s \<and> stop_evt s' \<and>
              tx_for L E (sel # sels) s = Break s' \<and>
              rx_loop L s' = Returned s' \<and>
              tx_loop L selections Es s' = TxReturned s'))"
proof (intro conjI impI)
  assume "last_local (flow_session (tx_sel L E0 sel0 s0)) \<noteq> last_local s0"
  then show "\<exists>header payload. peer_send E0 header payload \<and>
               sent (flow_session (tx_sel L E0 sel0 s0)) = sent s0 @ [(header, payload)]"
    by (rule tx_sel_ledger_change)
next
  let ?h = "sha L data mime"
  let ?s' = "(log_msg (TxSend sel) s)
                  \<lparr>sent := sent s @ [(put_header sel mime data ?h, data)],
                   last_local := AList.update (KStr sel) (JStr ?h) (last_local s)\<rparr>"
  assume ok: "peer_send E (put_header sel mime data ?h) data"
  have "tx_sel L E sel s = Next ?s'"
    using tx_sel_polled [OF p] tx_candidate_cases [OF a b] na nb ok by simp
  moreover have "map_of (last_local ?s') (KStr sel) = Some (JStr ?h)"
    by (simp add: update_conv')
  moreover have "sent ?s' = sent s @ [(put_header sel mime data ?h, data)]"
    by simp
  moreover have "stop_evt ?s' = stop_evt s"
    by (simp add: log_msg_def)
  ultimately show "\<exists>s'. tx_sel L E sel s = Next s' \<and>
              map_of (last_local s') (KStr sel) = Some (JStr ?h) \<and>
              sent s' = sent s @ [(put_header sel mime data ?h, data)] \<and>
              stop_evt s' = stop_evt s"
    by blast
next
  let ?h = "sha L data mime"
  let ?s' = "(log_msg TxSendFailed (log_msg (TxSend sel) s))\<lparr>stop_evt := True\<rparr>"
  assume fail: "\<not> peer_send E (put_header sel mime data ?h) data"
  have brk: "tx_sel L E sel s = Break ?s'"
    using tx_sel_polled [OF p] tx_candidate_cases [OF a b] na nb fail by simp
  have st: "stop_evt ?s'"
    by simp
  have "last_local ?s' = last_local s" "sent ?s' = sent s"
    by (simp_all add: log_msg_def)
  moreover have "tx_for L E (sel # sels) s = Break ?s'"
    using brk by simp
  moreover have "rx_loop L ?s' = Returned ?s'"
    using st by (rule rx_loop_stopped)
  moreover have "tx_loop L selections Es ?s' = TxReturned ?s'"
    using st by (rule tx_loop_stopped)
  ultimately show "\<exists>s'. tx_sel L E sel s = Break s' \<and>
              last_local s' = last_local s \<and> sent s' = sent s \<and> stop_evt s' \<and>
              tx_for L E (sel # sels) s = Break s' \<and>
              rx_loop L s' = Returned s' \<and>
              tx_loop L selections Es s' = TxReturned s'"
    using brk st by blast
qed

theorem tx_send_failure_witness:
  "polled (ex_env False) ''clipboard'' ''text/plain'' (encode ''hello'')
   \<and> map_of (last_local (ex_session [])) (KStr ''clipboard'') = Some JNull
   \<and> map_of (last_remote (ex_session [])) (KStr ''clipboard'') = Some JNull
   \<and> JStr (sha ex_lib (encode ''hello'') ''text/plain'') \<noteq> JNull
   \<and> \<not> peer_send (ex_env False)
          (put_header ''clipboard'' ''text/plain'' (encode ''hello'')
             (sha ex_lib (encode ''hello'') ''text/plain'')) (encode ''hello'')
   \<and> (\<exists>s'. tx_sel ex_lib (ex_env False) ''clipboard'' (ex_session []) = Break s'
         \<and> last_local s' = last_local (ex_session []) \<and> sent s' = sent (ex_session [])
         \<and> stop_evt s'
         \<and> tx_for ex_lib (ex_env False) [''clipboard'', ''primary''] (ex_session []) = Break s'
         \<and> rx_loop ex_lib s' = Returned s'
         \<and> tx_loop ex_lib [''clipboard''] [ex_env True] s' = TxReturned s')"
proof -
  have fail: "\<not> peer_send (ex_env False) header payload" for header payload
    by (simp add: ex_env_def)
  have ne: "JStr h \<noteq> JNull" for h
    by simp
  note t = tx_send_failure [where L = ex_lib,
      OF ex_polled [of False] ex_session_ledger(1) [of "[]"] ex_session_ledger(2) [of "[]"] ne ne]
  note three = t [THEN conjunct2, THEN conjunct2, rule_format, OF fail]
  show ?thesis
    using three [of "[''primary'']" "[''clipboard'']" "[ex_env True]"]
      fail ne ex_polled [of False] ex_session_ledger [of "[]"]
    by (intro conjI)
qed

text \<open>
  Claim C8. The hash \<^verbatim>\<open>sha(data, mime)\<close> is the SHA-256 hex digest of the bytes of the
  content type, one zero byte, and the content bytes, in this order. It is the value the
  outbound loop compares with the ledger, sends in the header and stores as last sent.
\<close>

theorem sha_digest:
  assumes p: "polled E sel mime data"
    and a: "map_of (last_local s) (KStr sel) = Some a"
    and b: "map_of (last_remote s) (KStr sel) = Some b"
  shows "sha L data mime = sha256_hexdigest L (encode mime @ [0] @ data)
   \<and> ((\<exists>s'. tx_sel L E sel s = Next s' \<and> sent s' = sent s) \<longleftrightarrow>
        JStr (sha256_hexdigest L (encode mime @ [0] @ data)) = a \<or>
        JStr (sha256_hexdigest L (encode mime @ [0] @ data)) = b)
   \<and> (tx_sel L E sel s = Next s' \<longrightarrow> sent s' \<noteq> sent s \<longrightarrow>
        sent s' = sent s @ [(put_header sel mime data
                               (sha256_hexdigest L (encode mime @ [0] @ data)), data)] \<and>
        map_of (last_local s') (KStr sel) =
          Some (JStr (sha256_hexdigest L (encode mime @ [0] @ data))))"
proof -
  let ?h = "sha256_hexdigest L (encode mime @ [0] @ data)"
  have h: "sha L data mime = ?h"
    by (simp add: sha_def)
  note c = tx_candidate_cases [OF a b, of L E mime data, unfolded h]
  note q = tx_sel_polled [OF p, of L s]
  have two: "(\<exists>s'. tx_sel L E sel s = Next s' \<and> sent s' = sent s) \<longleftrightarrow>
        JStr ?h = a \<or> JStr ?h = b"
    unfolding q c by (auto simp: log_msg_def)
  have three: "sent s' = sent s @ [(put_header sel mime data ?h, data)] \<and>
        map_of (last_local s') (KStr sel) = Some (JStr ?h)"
    if "tx_sel L E sel s = Next s'" "sent s' \<noteq> sent s"
    using that unfolding q c by (auto simp: log_msg_def update_conv' split: if_splits)
  show ?thesis
    using h two three by blast
qed

theorem sha_digest_witness:
  "polled (ex_env True) ''clipboard'' ''text/plain'' (encode ''hello'')
   \<and> map_of (last_local (ex_session [])) (KStr ''clipboard'') = Some JNull
   \<and> map_of (last_remote (ex_session [])) (KStr ''clipboard'') = Some JNull
   \<and> sha ex_lib (encode ''hello'') ''text/plain'' =
       ''97ef98f924d843749ab0e7f56c8362af9c86e7d214492543f8dbfb6cdf679037''"
proof -
  note t = sha_digest [where L = ex_lib,
      OF ex_polled [of True] ex_session_ledger(1) [of "[]"] ex_session_ledger(2) [of "[]"]]
  have "sha ex_lib (encode ''hello'') ''text/plain'' =
          sha256_hexdigest ex_lib (encode ''text/plain'' @ [0] @ encode ''hello'')"
    using t by (rule conjunct1)
  also have "\<dots> = ''97ef98f924d843749ab0e7f56c8362af9c86e7d214492543f8dbfb6cdf679037''"
    by (simp add: ex_lib_def ex_digest_def)
  finally show ?thesis
    using ex_polled [of True] ex_session_ledger [of "[]"] by (intro conjI)
qed

section \<open>The inbound path\<close>

lemmas ex_eval =
  ex_session_def session_start_def active_selections_def
  ex_lib_def ex_loads_def ex_int_def
  ex_put_bare_def ex_empty_obj_def ex_not_json_def ex_ping_def ex_put_primary_def ex_put_100_def
  ex_put_huge_def ex_put_list_sel_def ex_read_raises_def
  encode_def encode_char_def readline_def read_def
  rx_body_def rx_put_def dict_get_def log_msg_def set_clip_def

lemma rx_body_bad_header:
  assumes "readline (inbound s) = (line, after)" "line \<noteq> []" "json_loads L line = None"
  shows "rx_body L s = Next (log_msg RxBadHeader (s\<lparr>inbound := after\<rparr>))"
  using assms by (simp add: rx_body_def)

lemma rx_body_unknown:
  assumes "readline (inbound s) = (line, after)" "line \<noteq> []"
    "json_loads L line = Some (JObj hdr)" "dict_get hdr ''t'' JNull \<noteq> JStr ''put''"
  shows "rx_body L s = Next (log_msg RxUnknownMsg (s\<lparr>inbound := after\<rparr>))"
  using assms by (simp add: rx_body_def)

lemma rx_body_put:
  assumes "readline (inbound s) = (line, after)" "line \<noteq> []"
    "json_loads L line = Some (JObj hdr)" "dict_get hdr ''t'' JNull = JStr ''put''"
  shows "rx_body L s = rx_put L hdr (s\<lparr>inbound := after\<rparr>)"
  using assms by (simp add: rx_body_def)

lemma rx_put_short:
  assumes "py_int L (dict_get hdr ''len'' (JInt 0)) = Inr n" "int (length (inbound s)) < n"
    "read_raises L n = None"
  shows "rx_put L hdr s = Break (log_msg RxLengthMismatch ((log_msg RxPut s)\<lparr>inbound := []\<rparr>))"
  using assms by (simp add: rx_put_def read_def log_msg_def)

lemma rx_put_complete:
  assumes "py_int L (dict_get hdr ''len'' (JInt 0)) = Inr n"
    "read L n (inbound s) = Inr (data, rest)" "int (length data) = n"
    "key_of (dict_get hdr ''sel'' (JStr ''clipboard'')) = Some k"
  shows "rx_put L hdr s =
     Next ((log_msg RxPut s)
            \<lparr>inbound := rest,
             last_remote := AList.update k (dict_get hdr ''hash'' JNull) (last_remote s),
             applied := applied s @
               [set_clip (dict_get hdr ''sel'' (JStr ''clipboard''))
                         (dict_get hdr ''mime'' (JStr ''text/plain'')) data]\<rparr>)"
  using assms by (simp add: rx_put_def log_msg_def)

lemma rx_loop_break:
  assumes "\<not> stop_evt s" "rx_body L s = Break s'"
  shows "rx_loop L s = Returned (s'\<lparr>stop_evt := True\<rparr>)"
  using assms by (subst rx_loop.simps) simp

lemma rx_loop_next:
  assumes "\<not> stop_evt s" "rx_body L s = Next s'"
  shows "rx_loop L s = rx_loop L s'"
  using assms by (subst rx_loop.simps) simp

lemma run_turns_stopped: "stop_evt (sess st) \<Longrightarrow> run_turns L selections ts st = st"
  by (cases ts) simp_all

text \<open>
  When the header of a put frame declares a length for which the runtime can make a buffer
  and the stream ends before that many payload bytes have arrived, the inbound loop logs
  the length mismatch, applies nothing, leaves the ledger as it was, and sets the stop
  event, which ends the session.
\<close>

lemma rx_length_mismatch:
  assumes rl: "readline (inbound s) = (line, after)" and ne: "line \<noteq> []"
    and js: "json_loads L line = Some (JObj hdr)"
    and t: "dict_get hdr ''t'' JNull = JStr ''put''"
    and len: "py_int L (dict_get hdr ''len'' (JInt 0)) = Inr n"
    and short: "int (length after) < n"
    and buf: "read_raises L n = None"
    and run: "\<not> stop_evt s"
  shows "\<exists>s'. rx_loop L s = Returned s' \<and> stop_evt s' \<and>
           applied s' = applied s \<and> last_remote s' = last_remote s \<and>
           logged s' = logged s @ [RxPut, RxLengthMismatch] \<and>
           (rx_thread st = Alive \<longrightarrow> sess st = s \<longrightarrow>
              sess (rx_turn L st) = s' \<and>
              run_turns L selections ts (rx_turn L st) = rx_turn L st)"
proof -
  let ?b = "log_msg RxLengthMismatch ((log_msg RxPut (s\<lparr>inbound := after\<rparr>))\<lparr>inbound := []\<rparr>)"
  let ?s' = "?b\<lparr>stop_evt := True\<rparr>"
  have body: "rx_body L s = Break ?b"
    using rx_body_put [OF rl ne js t] rx_put_short [OF len _ buf, of "s\<lparr>inbound := after\<rparr>"] short
    by simp
  have loop: "rx_loop L s = Returned ?s'"
    using rx_loop_break [OF run body] .
  have obs: "stop_evt ?s'" "applied ?s' = applied s" "last_remote ?s' = last_remote s"
    "logged ?s' = logged s @ [RxPut, RxLengthMismatch]"
    by (simp_all add: log_msg_def)
  have turn: "sess (rx_turn L st) = ?s' \<and> run_turns L selections ts (rx_turn L st) = rx_turn L st"
    if "rx_thread st = Alive" "sess st = s"
  proof -
    have "sess (rx_turn L st) = ?s'"
      using that run body by (simp add: rx_turn_def)
    then show ?thesis
      using run_turns_stopped [of "rx_turn L st"] by simp
  qed
  show ?thesis
    using loop obs turn by blast
qed

lemma ex_readline_put_100:
  "readline (inbound (ex_session (ex_put_100 @ replicate 80 120))) = (ex_put_100, replicate 80 120)"
  by (simp add: ex_session_def session_start_def ex_put_100_def readline_def
        encode_def encode_char_def)

lemma rx_length_mismatch_example:
  "readline (inbound (ex_session (ex_put_100 @ replicate 80 120))) = (ex_put_100, replicate 80 120)
   \<and> ex_put_100 \<noteq> []
   \<and> py_int ex_lib (JInt 100) = Inr 100
   \<and> int (length (replicate 80 (120 :: byte))) < 100
   \<and> read_raises ex_lib 100 = None
   \<and> \<not> stop_evt (ex_session (ex_put_100 @ replicate 80 120))
   \<and> (\<exists>s'. rx_loop ex_lib (ex_session (ex_put_100 @ replicate 80 120)) = Returned s'
         \<and> stop_evt s' \<and> applied s' = [] \<and> logged s' = [RxPut, RxLengthMismatch])"
proof -
  let ?s = "ex_session (ex_put_100 @ replicate 80 120)"
  let ?hdr = "[(''t'', JStr ''put''), (''sel'', JStr ''clipboard''),
               (''mime'', JStr ''text/plain''), (''len'', JInt 100), (''hash'', JStr ''abc'')]"
  have ne: "ex_put_100 \<noteq> []"
    by (simp add: ex_put_100_def)
  have js: "json_loads ex_lib ex_put_100 = Some (JObj ?hdr)"
    by (simp add: ex_eval)
  have t: "dict_get ?hdr ''t'' JNull = JStr ''put''"
    by (simp add: dict_get_def)
  have len: "py_int ex_lib (dict_get ?hdr ''len'' (JInt 0)) = Inr 100"
    by (simp add: dict_get_def)
  have short: "int (length (replicate 80 (120 :: byte))) < 100"
    by simp
  have buf: "read_raises ex_lib 100 = None"
    by (simp add: ex_lib_def ex_read_raises_def)
  have run: "\<not> stop_evt ?s"
    by (simp add: ex_session_def session_start_def)
  have init: "applied ?s = []" "logged ?s = []"
    by (simp_all add: ex_session_def session_start_def)
  from rx_length_mismatch [OF ex_readline_put_100 ne js t len short buf run]
  obtain s' where "rx_loop ex_lib ?s = Returned s'" "stop_evt s'" "applied s' = applied ?s"
    "logged s' = logged ?s @ [RxPut, RxLengthMismatch]"
    by blast
  then have "\<exists>s'. rx_loop ex_lib ?s = Returned s' \<and> stop_evt s' \<and> applied s' = [] \<and>
               logged s' = [RxPut, RxLengthMismatch]"
    using init by auto
  then show ?thesis
    using ex_readline_put_100 ne short buf run by simp
qed

text \<open>
  Claim C2. A frame whose header declares more payload bytes than arrive before the stream
  ends must end the session with a protocol error. The program misses the lengths for
  which \<^verbatim>\<open>f.read\<close> cannot make a buffer: the header below declares \<open>2\<^sup>6\<^sup>3\<close> bytes and eight
  follow. \<^verbatim>\<open>f.read\<close> raises \<^verbatim>\<open>OverflowError\<close>, which nothing catches; the inbound thread ends
  without logging a mismatch and without setting the stop event, and the session goes on.
\<close>

theorem rx_read_overflow:
  "json_loads ex_lib ex_put_huge =
     Some (JObj [(''t'', JStr ''put''), (''len'', JInt 9223372036854775808)])
   \<and> rx_loop ex_lib (ex_session (ex_put_huge @ replicate 8 120)) =
       Died OverflowError
         \<lparr>inbound = replicate 8 120, last_local = [(KStr ''clipboard'', JNull)],
          last_remote = [(KStr ''clipboard'', JNull)],
          stop_evt = False, applied = [], sent = [], logged = [RxPut]\<rparr>
   \<and> run_session ex_lib False (ex_put_huge @ replicate 8 120, [RxTurn, RxTurn]) =
       \<lparr>sess = \<lparr>inbound = replicate 8 120, last_local = [(KStr ''clipboard'', JNull)],
                last_remote = [(KStr ''clipboard'', JNull)],
                stop_evt = False, applied = [], sent = [], logged = [RxPut]\<rparr>,
        rx_thread = Dead OverflowError, tx_thread = Alive\<rparr>"
  by (simp add: rx_loop.simps run_session_def rx_turn_def ex_eval)

section \<open>Headers that do not parse, unknown types and missing fields\<close>

text \<open>
  Claim C3, as stated, fails: a header line that does not parse is logged and skipped, and
  the loop reads on. Here the line \<^verbatim>\<open>not json\<close> is followed by a put frame for the primary
  selection with the payload \<^verbatim>\<open>hi\<close>; the frame is applied, and the loop ends only when the
  peer closes the stream.
\<close>

theorem rx_bad_header_counterexample:
  "json_loads ex_lib ex_not_json = None
   \<and> rx_loop ex_lib (ex_session (ex_not_json @ ex_put_primary @ [104, 105])) =
       Returned
         \<lparr>inbound = [], last_local = [(KStr ''clipboard'', JNull)],
          last_remote = [(KStr ''clipboard'', JNull), (KStr ''primary'', JStr ''abc'')],
          stop_evt = True,
          applied = [\<lparr>cw_cmd = [JStr ''wl-copy'', JStr ''--primary'', JStr ''--type'',
                               JStr ''text/plain''],
                      cw_data = [104, 105]\<rparr>],
          sent = [], logged = [RxBadHeader, RxPut, RxPeerClosed]\<rparr>"
  by (simp add: rx_loop.simps ex_eval)

text \<open>
  Claim C3, amended. A header line that does not parse is logged and that line alone is
  skipped; a header that parses to an object whose type is not \<^verbatim>\<open>put\<close> is logged and that
  line alone is skipped. In both cases the stop event is not set and the loop goes on with
  the bytes after the line.
\<close>

theorem rx_header_errors:
  assumes rl: "readline (inbound s) = (line, after)" and ne: "line \<noteq> []"
    and run: "\<not> stop_evt s"
  shows "(json_loads L line = None \<longrightarrow>
            rx_body L s = Next (log_msg RxBadHeader (s\<lparr>inbound := after\<rparr>)) \<and>
            \<not> stop_evt (log_msg RxBadHeader (s\<lparr>inbound := after\<rparr>)) \<and>
            rx_loop L s = rx_loop L (log_msg RxBadHeader (s\<lparr>inbound := after\<rparr>)))
   \<and> (json_loads L line = Some (JObj hdr) \<longrightarrow> dict_get hdr ''t'' JNull \<noteq> JStr ''put'' \<longrightarrow>
            rx_body L s = Next (log_msg RxUnknownMsg (s\<lparr>inbound := after\<rparr>)) \<and>
            \<not> stop_evt (log_msg RxUnknownMsg (s\<lparr>inbound := after\<rparr>)) \<and>
            rx_loop L s = rx_loop L (log_msg RxUnknownMsg (s\<lparr>inbound := after\<rparr>)))"
proof (intro conjI impI)
  assume js: "json_loads L line = None"
  show b: "rx_body L s = Next (log_msg RxBadHeader (s\<lparr>inbound := after\<rparr>))"
    using rx_body_bad_header [OF rl ne js] .
  show "\<not> stop_evt (log_msg RxBadHeader (s\<lparr>inbound := after\<rparr>))"
    using run by (simp add: log_msg_def)
  show "rx_loop L s = rx_loop L (log_msg RxBadHeader (s\<lparr>inbound := after\<rparr>))"
    using rx_loop_next [OF run b] .
next
  assume js: "json_loads L line = Some (JObj hdr)"
    and t: "dict_get hdr ''t'' JNull \<noteq> JStr ''put''"
  show b: "rx_body L s = Next (log_msg RxUnknownMsg (s\<lparr>inbound := after\<rparr>))"
    using rx_body_unknown [OF rl ne js t] .
  show "\<not> stop_evt (log_msg RxUnknownMsg (s\<lparr>inbound := after\<rparr>))"
    using run by (simp add: log_msg_def)
  show "rx_loop L s = rx_loop L (log_msg RxUnknownMsg (s\<lparr>inbound := after\<rparr>))"
    using rx_loop_next [OF run b] .
qed

theorem rx_header_errors_witness:
  "readline (inbound (ex_session (ex_not_json @ ex_ping))) = (ex_not_json, ex_ping)
   \<and> ex_not_json \<noteq> []
   \<and> \<not> stop_evt (ex_session (ex_not_json @ ex_ping))
   \<and> json_loads ex_lib ex_not_json = None
   \<and> rx_body ex_lib (ex_session (ex_not_json @ ex_ping)) =
       Next (log_msg RxBadHeader ((ex_session (ex_not_json @ ex_ping))\<lparr>inbound := ex_ping\<rparr>))
   \<and> readline (inbound (ex_session ex_ping)) = (ex_ping, [])
   \<and> ex_ping \<noteq> []
   \<and> \<not> stop_evt (ex_session ex_ping)
   \<and> json_loads ex_lib ex_ping = Some (JObj [(''t'', JStr ''ping'')])
   \<and> dict_get [(''t'', JStr ''ping'')] ''t'' JNull \<noteq> JStr ''put''
   \<and> rx_body ex_lib (ex_session ex_ping) =
       Next (log_msg RxUnknownMsg ((ex_session ex_ping)\<lparr>inbound := []\<rparr>))"
proof -
  have rl1: "readline (inbound (ex_session (ex_not_json @ ex_ping))) = (ex_not_json, ex_ping)"
    by (simp add: ex_session_def session_start_def ex_not_json_def ex_ping_def
          encode_def encode_char_def readline_def)
  have ne1: "ex_not_json \<noteq> []"
    by (simp add: ex_not_json_def)
  have run1: "\<not> stop_evt (ex_session (ex_not_json @ ex_ping))"
    by (simp add: ex_session_def session_start_def)
  have js1: "json_loads ex_lib ex_not_json = None"
    by (simp add: ex_eval)
  have rl2: "readline (inbound (ex_session ex_ping)) = (ex_ping, [])"
    by (simp add: ex_session_def session_start_def ex_ping_def
          encode_def encode_char_def readline_def)
  have ne2: "ex_ping \<noteq> []"
    by (simp add: ex_ping_def)
  have run2: "\<not> stop_evt (ex_session ex_ping)"
    by (simp add: ex_session_def session_start_def)
  have js2: "json_loads ex_lib ex_ping = Some (JObj [(''t'', JStr ''ping'')])"
    by (simp add: ex_eval)
  have t2: "dict_get [(''t'', JStr ''ping'')] ''t'' JNull \<noteq> JStr ''put''"
    by (simp add: dict_get_def)
  note a = rx_header_errors [OF rl1 ne1 run1, THEN conjunct1, rule_format, OF js1, THEN conjunct1]
  note b = rx_header_errors [OF rl2 ne2 run2, THEN conjunct2, rule_format, OF js2 t2,
      THEN conjunct1]
  show ?thesis
    using rl1 ne1 run1 js1 a rl2 ne2 run2 js2 t2 b by (intro conjI)
qed

text \<open>
  Claim C4, as stated, fails: the header \<^verbatim>\<open>{"t": "put"}\<close> has no selection, content type,
  length or hash, and it is accepted. The clipboard selection is set to an empty
  \<^verbatim>\<open>text/plain\<close> payload and \<^verbatim>\<open>None\<close> is recorded as its last received hash.
\<close>

theorem rx_missing_fields_counterexample:
  "json_loads ex_lib ex_put_bare = Some (JObj [(''t'', JStr ''put'')])
   \<and> rx_loop ex_lib (ex_session ex_put_bare) =
       Returned
         \<lparr>inbound = [], last_local = [(KStr ''clipboard'', JNull)],
          last_remote = [(KStr ''clipboard'', JNull)],
          stop_evt = True,
          applied = [\<lparr>cw_cmd = [JStr ''wl-copy'', JStr ''--type'', JStr ''text/plain''],
                      cw_data = []\<rparr>],
          sent = [], logged = [RxPut, RxPeerClosed]\<rparr>"
  by (simp add: rx_loop.simps ex_eval)

lemma dict_get_with_defaults:
  "dict_get (with_defaults hdr) ''sel'' d = dict_get hdr ''sel'' (JStr ''clipboard'')"
  "dict_get (with_defaults hdr) ''mime'' d = dict_get hdr ''mime'' (JStr ''text/plain'')"
  "dict_get (with_defaults hdr) ''len'' d = dict_get hdr ''len'' (JInt 0)"
  "dict_get (with_defaults hdr) ''hash'' d = dict_get hdr ''hash'' JNull"
  by (simp_all add: dict_get_def with_defaults_def map_add_def split: option.splits)

lemma rx_put_with_defaults: "rx_put L (with_defaults hdr) s = rx_put L hdr s"
  unfolding rx_put_def dict_get_with_defaults ..

text \<open>
  Claim C4, amended. Of the header fields only the type is required: a header without it
  is skipped as an unknown message. A put header is read as if every one of the fields
  selection, content type, length and hash that it lacks were present with the default
  \<^verbatim>\<open>clipboard\<close>, \<^verbatim>\<open>text/plain\<close>, \<open>0\<close> and \<^verbatim>\<open>None\<close>; a header that lacks all four is
  accepted with an empty payload.
\<close>

theorem rx_put_defaults:
  assumes rl: "readline (inbound s) = (line, after)" and ne: "line \<noteq> []"
    and js: "json_loads L line = Some (JObj hdr)"
  shows "(map_of hdr ''t'' = None \<longrightarrow>
            rx_body L s = Next (log_msg RxUnknownMsg (s\<lparr>inbound := after\<rparr>)))
   \<and> (dict_get hdr ''t'' JNull = JStr ''put'' \<longrightarrow>
            rx_body L s = rx_put L (with_defaults hdr) (s\<lparr>inbound := after\<rparr>) \<and>
            map_of (with_defaults hdr) ''sel'' \<noteq> None \<and>
            map_of (with_defaults hdr) ''mime'' \<noteq> None \<and>
            map_of (with_defaults hdr) ''len'' \<noteq> None \<and>
            map_of (with_defaults hdr) ''hash'' \<noteq> None)
   \<and> (dict_get hdr ''t'' JNull = JStr ''put'' \<longrightarrow>
        map_of hdr ''sel'' = None \<longrightarrow> map_of hdr ''mime'' = None \<longrightarrow>
        map_of hdr ''len'' = None \<longrightarrow> map_of hdr ''hash'' = None \<longrightarrow>
            rx_body L s =
              Next ((log_msg RxPut (s\<lparr>inbound := after\<rparr>))
                     \<lparr>last_remote := AList.update (KStr ''clipboard'') JNull (last_remote s),
                      applied := applied s @
                        [set_clip (JStr ''clipboard'') (JStr ''text/plain'') []]\<rparr>))"
proof (intro conjI impI)
  assume "map_of hdr ''t'' = None"
  then have "dict_get hdr ''t'' JNull \<noteq> JStr ''put''"
    by (simp add: dict_get_def)
  then show "rx_body L s = Next (log_msg RxUnknownMsg (s\<lparr>inbound := after\<rparr>))"
    using rx_body_unknown [OF rl ne js] by simp
next
  assume t: "dict_get hdr ''t'' JNull = JStr ''put''"
  show "rx_body L s = rx_put L (with_defaults hdr) (s\<lparr>inbound := after\<rparr>)"
    using rx_body_put [OF rl ne js t] rx_put_with_defaults by simp
  show "map_of (with_defaults hdr) ''sel'' \<noteq> None" "map_of (with_defaults hdr) ''mime'' \<noteq> None"
    "map_of (with_defaults hdr) ''len'' \<noteq> None" "map_of (with_defaults hdr) ''hash'' \<noteq> None"
    by (simp_all add: with_defaults_def map_add_def split: option.splits)
next
  assume t: "dict_get hdr ''t'' JNull = JStr ''put''"
    and m: "map_of hdr ''sel'' = None" "map_of hdr ''mime'' = None"
      "map_of hdr ''len'' = None" "map_of hdr ''hash'' = None"
  let ?s = "s\<lparr>inbound := after\<rparr>"
  have d: "dict_get hdr ''sel'' (JStr ''clipboard'') = JStr ''clipboard''"
    "dict_get hdr ''mime'' (JStr ''text/plain'') = JStr ''text/plain''"
    "dict_get hdr ''len'' (JInt 0) = JInt 0" "dict_get hdr ''hash'' JNull = JNull"
    using m by (simp_all add: dict_get_def)
  have "rx_put L hdr ?s =
     Next ((log_msg RxPut ?s)
            \<lparr>inbound := after,
             last_remote := AList.update (KStr ''clipboard'') JNull (last_remote ?s),
             applied := applied ?s @ [set_clip (JStr ''clipboard'') (JStr ''text/plain'') []]\<rparr>)"
    using rx_put_complete [of L hdr 0 ?s "[]" after "KStr ''clipboard''"] d
    by (simp add: read_def)
  then show "rx_body L s =
              Next ((log_msg RxPut (s\<lparr>inbound := after\<rparr>))
                     \<lparr>last_remote := AList.update (KStr ''clipboard'') JNull (last_remote s),
                      applied := applied s @
                        [set_clip (JStr ''clipboard'') (JStr ''text/plain'') []]\<rparr>)"
    using rx_body_put [OF rl ne js t] by (simp add: log_msg_def)
qed

theorem rx_put_defaults_witness:
  "readline (inbound (ex_session ex_put_bare)) = (ex_put_bare, [])
   \<and> ex_put_bare \<noteq> []
   \<and> json_loads ex_lib ex_put_bare = Some (JObj [(''t'', JStr ''put'')])
   \<and> dict_get [(''t'', JStr ''put'')] ''t'' JNull = JStr ''put''
   \<and> map_of [(''t'', JStr ''put'')] ''sel'' = None
   \<and> map_of [(''t'', JStr ''put'')] ''mime'' = None
   \<and> map_of [(''t'', JStr ''put'')] ''len'' = None
   \<and> map_of [(''t'', JStr ''put'')] ''hash'' = None
   \<and> rx_body ex_lib (ex_session ex_put_bare) =
       Next ((log_msg RxPut ((ex_session ex_put_bare)\<lparr>inbound := []\<rparr>))
              \<lparr>last_remote := AList.update (KStr ''clipboard'') JNull
                                (last_remote (ex_session ex_put_bare)),
               applied := applied (ex_session ex_put_bare) @
                 [set_clip (JStr ''clipboard'') (JStr ''text/plain'') []]\<rparr>)
   \<and> readline (inbound (ex_session ex_empty_obj)) = (ex_empty_obj, [])
   \<and> ex_empty_obj \<noteq> []
   \<and> json_loads ex_lib ex_empty_obj = Some (JObj [])
   \<and> map_of ([] :: (string \<times> jval) list) ''t'' = None
   \<and> rx_body ex_lib (ex_session ex_empty_obj) =
       Next (log_msg RxUnknownMsg ((ex_session ex_empty_obj)\<lparr>inbound := []\<rparr>))"
proof -
  have rl: "readline (inbound (ex_session ex_put_bare)) = (ex_put_bare, [])"
    by (simp add: ex_session_def session_start_def ex_put_bare_def
          encode_def encode_char_def readline_def)
  have ne: "ex_put_bare \<noteq> []"
    by (simp add: ex_put_bare_def)
  have js: "json_loads ex_lib ex_put_bare = Some (JObj [(''t'', JStr ''put'')])"
    by (simp add: ex_eval)
  have t: "dict_get [(''t'', JStr ''put'')] ''t'' JNull = JStr ''put''"
    by (simp add: dict_get_def)
  have m: "map_of [(''t'', JStr ''put'')] ''sel'' = None"
    "map_of [(''t'', JStr ''put'')] ''mime'' = None"
    "map_of [(''t'', JStr ''put'')] ''len'' = None"
    "map_of [(''t'', JStr ''put'')] ''hash'' = None"
    by simp_all
  note r = rx_put_defaults [OF rl ne js, THEN conjunct2, THEN conjunct2, rule_format, OF t m]
  have rl2: "readline (inbound (ex_session ex_empty_obj)) = (ex_empty_obj, [])"
    by (simp add: ex_session_def session_start_def ex_empty_obj_def
          encode_def encode_char_def readline_def)
  have ne2: "ex_empty_obj \<noteq> []"
    by (simp add: ex_empty_obj_def)
  have js2: "json_loads ex_lib ex_empty_obj = Some (JObj [])"
    by (simp add: ex_eval)
  have x: "map_of ([] :: (string \<times> jval) list) ''t'' = None"
    by simp
  note u = rx_put_defaults [OF rl2 ne2 js2, THEN conjunct1, rule_format, OF x]
  show ?thesis
    using rl ne js t m r rl2 ne2 js2 x u by (intro conjI)
qed

section \<open>What the inbound loop does not check\<close>

lemma py_int_digest: "py_int (L\<lparr>sha256_hexdigest := f\<rparr>) v = py_int L v"
proof (cases v)
  case (JFloat x)
  then show ?thesis by (cases x) simp_all
qed simp_all

lemma read_digest: "read (L\<lparr>sha256_hexdigest := f\<rparr>) n bs = read L n bs"
  by (simp add: read_def)

lemma rx_put_digest: "rx_put (L\<lparr>sha256_hexdigest := f\<rparr>) hdr s = rx_put L hdr s"
  unfolding rx_put_def py_int_digest read_digest ..

lemma rx_body_digest: "rx_body (L\<lparr>sha256_hexdigest := f\<rparr>) s = rx_body L s"
  by (simp add: rx_body_def rx_put_digest Let_def
        split: prod.splits option.splits jval.splits)


text \<open>
  When the payload of a put frame has been read in full and the selection of the header
  can be a dict key, the inbound loop stores the hash the header declares (\<^verbatim>\<open>None\<close> when
  the field is absent) as the last received hash of that selection and passes the payload
  to \<^verbatim>\<open>set_clip\<close>. It never computes a digest: the outcome is the same whatever the digest
  function is, so a declared hash that is not the digest of the content is stored and the
  content applied all the same.
\<close>

lemma rx_declared_hash:
  assumes rl: "readline (inbound s) = (line, after)" and ne: "line \<noteq> []"
    and js: "json_loads L line = Some (JObj hdr)"
    and t: "dict_get hdr ''t'' JNull = JStr ''put''"
    and len: "py_int L (dict_get hdr ''len'' (JInt 0)) = Inr n"
    and rd: "read L n after = Inr (data, rest)"
    and full: "int (length data) = n"
    and k: "key_of (dict_get hdr ''sel'' (JStr ''clipboard'')) = Some k"
  shows "(\<exists>s'. rx_body L s = Next s' \<and>
             map_of (last_remote s') k = Some (dict_get hdr ''hash'' JNull) \<and>
             (map_of hdr ''hash'' = None \<longrightarrow> map_of (last_remote s') k = Some JNull) \<and>
             applied s' = applied s @
               [set_clip (dict_get hdr ''sel'' (JStr ''clipboard''))
                         (dict_get hdr ''mime'' (JStr ''text/plain'')) data])
   \<and> rx_body (L\<lparr>sha256_hexdigest := f\<rparr>) s = rx_body L s
   \<and> cw_data (set_clip (dict_get hdr ''sel'' (JStr ''clipboard''))
                         (dict_get hdr ''mime'' (JStr ''text/plain'')) data) = data"
proof (intro conjI)
  let ?s = "s\<lparr>inbound := after\<rparr>"
  let ?s' = "(log_msg RxPut ?s)
            \<lparr>inbound := rest,
             last_remote := AList.update k (dict_get hdr ''hash'' JNull) (last_remote ?s),
             applied := applied ?s @
               [set_clip (dict_get hdr ''sel'' (JStr ''clipboard''))
                         (dict_get hdr ''mime'' (JStr ''text/plain'')) data]\<rparr>"
  have rd': "read L n (inbound ?s) = Inr (data, rest)"
    using rd by simp
  have "rx_put L hdr ?s = Next ?s'"
    by (rule rx_put_complete [OF len rd' full k])
  then have body: "rx_body L s = Next ?s'"
    by (simp only: rx_body_put [OF rl ne js t])
  have led: "map_of (last_remote ?s') k = Some (dict_get hdr ''hash'' JNull)"
    by (simp add: update_conv')
  have absent: "map_of hdr ''hash'' = None \<longrightarrow> map_of (last_remote ?s') k = Some JNull"
    by (simp add: update_conv' dict_get_def)
  have app: "applied ?s' = applied s @
               [set_clip (dict_get hdr ''sel'' (JStr ''clipboard''))
                         (dict_get hdr ''mime'' (JStr ''text/plain'')) data]"
    by simp
  show "\<exists>s'. rx_body L s = Next s' \<and>
             map_of (last_remote s') k = Some (dict_get hdr ''hash'' JNull) \<and>
             (map_of hdr ''hash'' = None \<longrightarrow> map_of (last_remote s') k = Some JNull) \<and>
             applied s' = applied s @
               [set_clip (dict_get hdr ''sel'' (JStr ''clipboard''))
                         (dict_get hdr ''mime'' (JStr ''text/plain'')) data]"
    by (rule exI [of _ ?s']) (use body led absent app in \<open>intro conjI\<close>)
next
  show "rx_body (L\<lparr>sha256_hexdigest := f\<rparr>) s = rx_body L s"
    by (rule rx_body_digest)
next
  show "cw_data (set_clip (dict_get hdr ''sel'' (JStr ''clipboard''))
                         (dict_get hdr ''mime'' (JStr ''text/plain'')) data) = data"
    by (simp add: set_clip_def)
qed

lemma ex_primary_frame:
  "readline (inbound (ex_session (ex_put_primary @ [104, 105]))) = (ex_put_primary, [104, 105])"
  "ex_put_primary \<noteq> []"
  "json_loads ex_lib ex_put_primary =
     Some (JObj [(''t'', JStr ''put''), (''sel'', JStr ''primary''),
                 (''mime'', JStr ''text/plain''), (''len'', JInt 2), (''hash'', JStr ''abc'')])"
  by (simp_all add: ex_eval)

lemma ex_primary_header:
  "dict_get [(''t'', JStr ''put''), (''sel'', JStr ''primary''),
             (''mime'', JStr ''text/plain''), (''len'', JInt 2), (''hash'', JStr ''abc'')]
     ''t'' JNull = JStr ''put''"
  "py_int ex_lib
     (dict_get [(''t'', JStr ''put''), (''sel'', JStr ''primary''),
                (''mime'', JStr ''text/plain''), (''len'', JInt 2), (''hash'', JStr ''abc'')]
        ''len'' (JInt 0)) = Inr 2"
  "dict_get [(''t'', JStr ''put''), (''sel'', JStr ''primary''),
             (''mime'', JStr ''text/plain''), (''len'', JInt 2), (''hash'', JStr ''abc'')]
     ''sel'' (JStr ''clipboard'') = JStr ''primary''"
  "dict_get [(''t'', JStr ''put''), (''sel'', JStr ''primary''),
             (''mime'', JStr ''text/plain''), (''len'', JInt 2), (''hash'', JStr ''abc'')]
     ''hash'' JNull = JStr ''abc''"
  "dict_get [(''t'', JStr ''put''), (''sel'', JStr ''primary''),
             (''mime'', JStr ''text/plain''), (''len'', JInt 2), (''hash'', JStr ''abc'')]
     ''mime'' (JStr ''text/plain'') = JStr ''text/plain''"
  by (simp_all add: dict_get_def)

lemma ex_primary_read:
  "read ex_lib 2 [104, 105 :: byte] = Inr ([104, 105], [])"
  "int (length [104, 105 :: byte]) = 2"
  by (simp_all add: read_def ex_lib_def ex_read_raises_def)

lemma rx_declared_hash_example:
  "readline (inbound (ex_session (ex_put_primary @ [104, 105]))) = (ex_put_primary, [104, 105])
   \<and> ex_put_primary \<noteq> []
   \<and> json_loads ex_lib ex_put_primary =
       Some (JObj [(''t'', JStr ''put''), (''sel'', JStr ''primary''),
                   (''mime'', JStr ''text/plain''), (''len'', JInt 2), (''hash'', JStr ''abc'')])
   \<and> read ex_lib 2 [104, 105 :: byte] = Inr ([104, 105], [])
   \<and> key_of (JStr ''primary'') = Some (KStr ''primary'')
   \<and> (\<exists>s'. rx_body ex_lib (ex_session (ex_put_primary @ [104, 105])) = Next s'
         \<and> map_of (last_remote s') (KStr ''primary'') = Some (JStr ''abc'')
         \<and> applied s' = [set_clip (JStr ''primary'') (JStr ''text/plain'') [104, 105]])"
proof -
  have k: "key_of (dict_get [(''t'', JStr ''put''), (''sel'', JStr ''primary''),
             (''mime'', JStr ''text/plain''), (''len'', JInt 2), (''hash'', JStr ''abc'')]
     ''sel'' (JStr ''clipboard'')) = Some (KStr ''primary'')"
    by (simp add: dict_get_def)
  have init: "applied (ex_session (ex_put_primary @ [104, 105])) = []"
    by (simp add: ex_session_def session_start_def)
  from rx_declared_hash [OF ex_primary_frame ex_primary_header(1,2) ex_primary_read k,
      THEN conjunct1]
  obtain s' where b: "rx_body ex_lib (ex_session (ex_put_primary @ [104, 105])) = Next s'"
    and l: "map_of (last_remote s') (KStr ''primary'') =
              Some (dict_get [(''t'', JStr ''put''), (''sel'', JStr ''primary''),
                (''mime'', JStr ''text/plain''), (''len'', JInt 2), (''hash'', JStr ''abc'')]
                ''hash'' JNull)"
    and a: "applied s' = applied (ex_session (ex_put_primary @ [104, 105])) @
              [set_clip
                (dict_get [(''t'', JStr ''put''), (''sel'', JStr ''primary''),
                  (''mime'', JStr ''text/plain''), (''len'', JInt 2), (''hash'', JStr ''abc'')]
                  ''sel'' (JStr ''clipboard''))
                (dict_get [(''t'', JStr ''put''), (''sel'', JStr ''primary''),
                  (''mime'', JStr ''text/plain''), (''len'', JInt 2), (''hash'', JStr ''abc'')]
                  ''mime'' (JStr ''text/plain'')) [104, 105]]"
    by blast
  have l': "map_of (last_remote s') (KStr ''primary'') = Some (JStr ''abc'')"
    using l unfolding ex_primary_header .
  have a': "applied s' = [set_clip (JStr ''primary'') (JStr ''text/plain'') [104, 105]]"
    using a unfolding ex_primary_header init by simp
  have kk: "key_of (JStr ''primary'') = Some (KStr ''primary'')"
    by simp
  have e: "\<exists>s'. rx_body ex_lib (ex_session (ex_put_primary @ [104, 105])) = Next s'
         \<and> map_of (last_remote s') (KStr ''primary'') = Some (JStr ''abc'')
         \<and> applied s' = [set_clip (JStr ''primary'') (JStr ''text/plain'') [104, 105]]"
    using b l' a' by blast
  show ?thesis
    using ex_primary_frame ex_primary_read(1) kk e by (intro conjI)
qed

text \<open>
  Claim C9. Every put frame whose payload is read in full should have its declared hash
  stored and its payload applied, whatever the hash is. The program misses the frames
  whose selection is not a string or another hashable value: the header below names the
  selection \<^verbatim>\<open>["a"]\<close>, and its two payload bytes are read. The assignment to the ledger
  raises \<^verbatim>\<open>TypeError\<close>, which nothing catches; the inbound thread ends, no hash is stored,
  \<^verbatim>\<open>set_clip\<close> is not called and the stop event is not set.
\<close>

theorem rx_unhashable_selection:
  "json_loads ex_lib ex_put_list_sel =
     Some (JObj [(''t'', JStr ''put''), (''sel'', JArr [JStr ''a'']),
                 (''mime'', JStr ''text/plain''), (''len'', JInt 2), (''hash'', JStr ''abc'')])
   \<and> rx_loop ex_lib (ex_session (ex_put_list_sel @ [104, 105])) =
       Died TypeError
         \<lparr>inbound = [], last_local = [(KStr ''clipboard'', JNull)],
          last_remote = [(KStr ''clipboard'', JNull)],
          stop_evt = False, applied = [], sent = [], logged = [RxPut]\<rparr>"
  by (simp add: rx_loop.simps ex_eval)



section \<open>The ledger of a session\<close>

lemma map_of_unset:
  "map_of (map (\<lambda>s. (KStr s, JNull)) sels) k =
     (if k \<in> KStr ` set sels then Some JNull else None)"
  by (induction sels) auto

lemma serve_nth:
  "i < length conns \<Longrightarrow> serve L primary_ok conns ! i = run_session L primary_ok (conns ! i)"
proof (induction conns arbitrary: i)
  case Nil
  then show ?case by simp
next
  case (Cons conn conns)
  then show ?case by (cases i) simp_all
qed

text \<open>
  Claim C6. At the start of a session both ledgers hold exactly the active selections,
  each unset (\<^verbatim>\<open>None\<close>). Every session that \<^verbatim>\<open>serve\<close> runs is a run from this start state
  on its own connection: nothing of an earlier session enters it.
\<close>

theorem fresh_ledger:
  "map_of (last_local (sess (session_start primary_ok sock))) k =
     (if k \<in> KStr ` set (active_selections primary_ok) then Some JNull else None)
   \<and> map_of (last_remote (sess (session_start primary_ok sock))) k =
     (if k \<in> KStr ` set (active_selections primary_ok) then Some JNull else None)
   \<and> (i < length conns \<longrightarrow>
        serve L primary_ok conns ! i =
          run_turns L (active_selections primary_ok) (snd (conns ! i))
            (session_start primary_ok (fst (conns ! i))))"
proof (intro conjI impI)
  show "map_of (last_local (sess (session_start primary_ok sock))) k =
     (if k \<in> KStr ` set (active_selections primary_ok) then Some JNull else None)"
    by (simp only: session_start_def session.simps threads.simps map_of_unset)
  show "map_of (last_remote (sess (session_start primary_ok sock))) k =
     (if k \<in> KStr ` set (active_selections primary_ok) then Some JNull else None)"
    by (simp only: session_start_def session.simps threads.simps map_of_unset)
next
  assume "i < length conns"
  then show "serve L primary_ok conns ! i =
          run_turns L (active_selections primary_ok) (snd (conns ! i))
            (session_start primary_ok (fst (conns ! i)))"
    by (simp add: serve_nth run_session_def)
qed

theorem fresh_ledger_witness:
  "(1 :: nat) < length [(ex_put_primary @ [104, 105], [RxTurn]), ([], [])]
   \<and> last_remote (sess (serve ex_lib False
         [(ex_put_primary @ [104, 105], [RxTurn]), ([], [])] ! 0)) =
       [(KStr ''clipboard'', JNull), (KStr ''primary'', JStr ''abc'')]
   \<and> last_remote (sess (serve ex_lib False
         [(ex_put_primary @ [104, 105], [RxTurn]), ([], [])] ! 1)) =
       [(KStr ''clipboard'', JNull)]
   \<and> last_local (sess (serve ex_lib False
         [(ex_put_primary @ [104, 105], [RxTurn]), ([], [])] ! 1)) =
       [(KStr ''clipboard'', JNull)]"
proof -
  let ?conns = "[(ex_put_primary @ [104, 105], [RxTurn]), ([], [])]"
  have i: "(1 :: nat) < length ?conns"
    by simp
  have first: "last_remote (sess (serve ex_lib False ?conns ! 0)) =
       [(KStr ''clipboard'', JNull), (KStr ''primary'', JStr ''abc'')]"
    by (simp add: run_session_def rx_turn_def ex_eval)
  note t = fresh_ledger [of False "[]" "KStr ''clipboard''" 1 ?conns ex_lib,
      THEN conjunct2, THEN conjunct2, rule_format, OF i]
  have second: "serve ex_lib False ?conns ! 1 = session_start False []"
    unfolding t by simp
  show ?thesis
    using i first unfolding second
    by (simp add: session_start_def active_selections_def)
qed

section \<open>The outbound loop never misses a ledger entry\<close>

lemma has_keys_start: "has_keys (active_selections p) (sess (session_start p sock))"
  by (simp add: has_keys_def session_start_def map_of_unset)

lemma has_keys_rx_put:
  assumes "has_keys sels s"
  shows "has_keys sels (flow_session (rx_put L hdr s))"
  using assms
  by (auto simp: has_keys_def rx_put_def Let_def log_msg_def update_conv'
           split: sum.splits prod.splits option.splits)

lemma has_keys_rx_body:
  assumes "has_keys sels s"
  shows "has_keys sels (flow_session (rx_body L s))"
proof -
  have k: "has_keys sels (log_msg m (s\<lparr>inbound := bs\<rparr>))" for m bs
    using assms by (simp add: has_keys_def log_msg_def)
  have k': "has_keys sels (s\<lparr>inbound := bs\<rparr>)" for bs
    using assms by (simp add: has_keys_def)
  show ?thesis
    using k k' has_keys_rx_put [OF k']
    by (simp add: rx_body_def Let_def split: prod.splits option.splits jval.splits)
qed

lemma has_keys_tx_candidate:
  assumes "has_keys sels s"
  shows "has_keys sels (flow_session (tx_candidate L E sel mime data s))"
  using assms
  by (auto simp: has_keys_def tx_candidate_def dict_item_def Let_def log_msg_def update_conv'
           split: option.splits)

lemma has_keys_tx_sel:
  assumes "has_keys sels s"
  shows "has_keys sels (flow_session (tx_sel L E sel s))"
  using assms has_keys_tx_candidate [OF assms]
  by (simp add: tx_sel_def Let_def split: option.splits)

lemma tx_candidate_no_exception:
  assumes "has_keys sels s" "sel \<in> set sels"
  shows "tx_candidate L E sel mime data s \<noteq> Uncaught e s'"
  using assms
  by (auto simp: has_keys_def tx_candidate_def dict_item_def Let_def split: option.splits)

lemma tx_sel_no_exception:
  assumes "has_keys sels s" "sel \<in> set sels"
  shows "tx_sel L E sel s \<noteq> Uncaught e s'"
  using tx_candidate_no_exception [OF assms]
  by (simp add: tx_sel_def Let_def split: option.splits)

lemma tx_for_keeps:
  assumes "has_keys sels s" "set xs \<subseteq> set sels"
  shows "has_keys sels (flow_session (tx_for L E xs s)) \<and> tx_for L E xs s \<noteq> Uncaught e s'"
  using assms
proof (induction xs arbitrary: s)
  case Nil
  then show ?case by simp
next
  case (Cons x xs)
  have x: "x \<in> set sels" and xs: "set xs \<subseteq> set sels"
    using Cons.prems(2) by simp_all
  note keep = has_keys_tx_sel [OF Cons.prems(1), of L E x]
  note noexn = tx_sel_no_exception [OF Cons.prems(1) x, of L E]
  show ?case
  proof (cases "tx_sel L E x s")
    case (Next s1)
    then have "has_keys sels s1" using keep by simp
    then show ?thesis using Cons.IH [OF _ xs] Next by simp
  next
    case (Break s1)
    then show ?thesis using keep by simp
  next
    case (Uncaught e1 s1)
    then show ?thesis using noexn by simp
  qed
qed

lemma tx_turn_keeps:
  assumes "has_keys sels (sess st)" "\<forall>e. tx_thread st \<noteq> Dead e"
  shows "has_keys sels (sess (tx_turn L sels E st)) \<and> (\<forall>e. tx_thread (tx_turn L sels E st) \<noteq> Dead e)"
proof -
  note k = tx_for_keeps [OF assms(1) subset_refl, of L E]
  show ?thesis
  proof (cases "tx_for L E sels (sess st)")
    case (Next s1)
    then show ?thesis using assms k by (simp add: tx_turn_def)
  next
    case (Break s1)
    then show ?thesis using assms k by (simp add: tx_turn_def)
  next
    case (Uncaught e1 s1)
    then show ?thesis using k by simp
  qed
qed

lemma rx_turn_keeps:
  assumes "has_keys sels (sess st)" "\<forall>e. tx_thread st \<noteq> Dead e"
  shows "has_keys sels (sess (rx_turn L st)) \<and> (\<forall>e. tx_thread (rx_turn L st) \<noteq> Dead e)"
proof -
  note k = has_keys_rx_body [OF assms(1), of L]
  have stop: "has_keys sels (s\<lparr>stop_evt := True\<rparr>)" if "has_keys sels s" for s
    using that by (simp add: has_keys_def)
  show ?thesis
  proof (cases "rx_body L (sess st)")
    case (Next s1)
    then show ?thesis using assms k by (simp add: rx_turn_def)
  next
    case (Break s1)
    then show ?thesis using assms k stop by (simp add: rx_turn_def)
  next
    case (Uncaught e1 s1)
    then show ?thesis using assms k by (simp add: rx_turn_def)
  qed
qed

lemma run_turns_keeps:
  assumes "has_keys sels (sess st)" "\<forall>e. tx_thread st \<noteq> Dead e"
  shows "has_keys sels (sess (run_turns L sels ts st)) \<and>
         (\<forall>e. tx_thread (run_turns L sels ts st) \<noteq> Dead e)"
  using assms
proof (induction ts arbitrary: st)
  case Nil
  then show ?case by simp
next
  case (Cons t ts)
  show ?case
  proof (cases t)
    case RxTurn
    then show ?thesis
      using Cons.prems Cons.IH [of "rx_turn L st"] rx_turn_keeps [OF Cons.prems, of L]
      by simp
  next
    case (TxTurn E)
    then show ?thesis
      using Cons.prems Cons.IH [of "tx_turn L sels E st"] tx_turn_keeps [OF Cons.prems, of L E]
      by simp
  qed
qed

lemma tx_thread_survives: "tx_thread (run_session L primary_ok conn) \<noteq> Dead e"
  using run_turns_keeps [OF has_keys_start, of primary_ok "fst conn" L "snd conn"]
  by (simp add: run_session_def session_start_def)

end
